theory Spec2Isabelle
  imports Complex_Main "HOL-Library.Word"
begin

section \<open>JavaScript numbers\<close>

text \<open>
  The grid generator and the geometry helpers of \<^verbatim>\<open>server.js\<close> compute with JavaScript
  numbers. A number is modelled as a finite real or one of the three special values of
  IEEE-754. What is modelled is every place where the source can leave the finite numbers:
  overflow to an infinity, division by zero, the square root of a negative number, and
  arithmetic and comparisons on \<^verbatim>\<open>NaN\<close> and the infinities; and the loop counters, which
  stop growing at \<open>2^53\<close>. A finite result that does not overflow is kept exact: rounding to
  binary64 and the sign of zero are not modelled (a zero divisor counts as \<open>+0\<close>),
  \<^verbatim>\<open>Math.PI\<close> is \<open>pi\<close> and \<^verbatim>\<open>Math.cos\<close> the cosine. The general theorems below are
  therefore stated for inputs on which the rounding cannot change the outcome.
\<close>

datatype jsnum = Fin real | PInf | NInf | NaN

text \<open>
  A real result at or beyond \<open>2^1024 - 2^970\<close> in magnitude, the midpoint between the
  largest binary64 number and \<open>2^1024\<close>, becomes an infinity.
\<close>

definition overflow_threshold :: real where
  "overflow_threshold = 2 ^ 1024 - 2 ^ 970"

definition js_fin :: "real \<Rightarrow> jsnum" where
  "js_fin r =
     (if overflow_threshold \<le> r then PInf
      else if r \<le> - overflow_threshold then NInf
      else Fin r)"

fun js_neg :: "jsnum \<Rightarrow> jsnum" where
  "js_neg (Fin a) = Fin (- a)"
| "js_neg PInf = NInf"
| "js_neg NInf = PInf"
| "js_neg NaN = NaN"

fun js_add :: "jsnum \<Rightarrow> jsnum \<Rightarrow> jsnum" where
  "js_add (Fin a) (Fin b) = js_fin (a + b)"
| "js_add NaN _ = NaN"
| "js_add _ NaN = NaN"
| "js_add PInf NInf = NaN"
| "js_add NInf PInf = NaN"
| "js_add PInf _ = PInf"
| "js_add _ PInf = PInf"
| "js_add NInf _ = NInf"
| "js_add _ NInf = NInf"

definition js_sub :: "jsnum \<Rightarrow> jsnum \<Rightarrow> jsnum" where
  "js_sub a b = js_add a (js_neg b)"

text \<open>The sign of an infinity scaled by a finite factor; zero times infinity is \<^verbatim>\<open>NaN\<close>.\<close>

definition inf_signed :: "real \<Rightarrow> jsnum" where
  "inf_signed s = (if s = 0 then NaN else if 0 < s then PInf else NInf)"

fun js_mul :: "jsnum \<Rightarrow> jsnum \<Rightarrow> jsnum" where
  "js_mul (Fin a) (Fin b) = js_fin (a * b)"
| "js_mul NaN _ = NaN"
| "js_mul _ NaN = NaN"
| "js_mul (Fin a) PInf = inf_signed a"
| "js_mul (Fin a) NInf = inf_signed (- a)"
| "js_mul PInf (Fin b) = inf_signed b"
| "js_mul NInf (Fin b) = inf_signed (- b)"
| "js_mul PInf PInf = PInf"
| "js_mul NInf NInf = PInf"
| "js_mul PInf NInf = NInf"
| "js_mul NInf PInf = NInf"

fun js_div :: "jsnum \<Rightarrow> jsnum \<Rightarrow> jsnum" where
  "js_div (Fin a) (Fin b) = (if b = 0 then inf_signed a else js_fin (a / b))"
| "js_div NaN _ = NaN"
| "js_div _ NaN = NaN"
| "js_div (Fin a) PInf = Fin 0"
| "js_div (Fin a) NInf = Fin 0"
| "js_div PInf (Fin b) = (if b < 0 then NInf else PInf)"
| "js_div NInf (Fin b) = (if b < 0 then PInf else NInf)"
| "js_div PInf PInf = NaN"
| "js_div PInf NInf = NaN"
| "js_div NInf PInf = NaN"
| "js_div NInf NInf = NaN"

fun js_sqrt :: "jsnum \<Rightarrow> jsnum" where
  "js_sqrt (Fin a) = (if a < 0 then NaN else Fin (sqrt a))"
| "js_sqrt PInf = PInf"
| "js_sqrt NInf = NaN"
| "js_sqrt NaN = NaN"

fun js_cos :: "jsnum \<Rightarrow> jsnum" where
  "js_cos (Fin a) = Fin (cos a)"
| "js_cos _ = NaN"

fun js_abs :: "jsnum \<Rightarrow> jsnum" where
  "js_abs (Fin a) = Fin \<bar>a\<bar>"
| "js_abs PInf = PInf"
| "js_abs NInf = PInf"
| "js_abs NaN = NaN"

fun js_ceil :: "jsnum \<Rightarrow> jsnum" where
  "js_ceil (Fin a) = Fin (of_int \<lceil>a\<rceil>)"
| "js_ceil v = v"

fun js_lt :: "jsnum \<Rightarrow> jsnum \<Rightarrow> bool" where
  "js_lt (Fin a) (Fin b) = (a < b)"
| "js_lt NaN _ = False"
| "js_lt _ NaN = False"
| "js_lt _ NInf = False"
| "js_lt PInf _ = False"
| "js_lt NInf _ = True"
| "js_lt _ PInf = True"

definition js_gt :: "jsnum \<Rightarrow> jsnum \<Rightarrow> bool" where
  "js_gt a b = js_lt b a"

text \<open>\<^verbatim>\<open>!v\<close> on a number: zero and \<^verbatim>\<open>NaN\<close> are falsy.\<close>

fun js_falsy :: "jsnum \<Rightarrow> bool" where
  "js_falsy (Fin a) = (a = 0)"
| "js_falsy NaN = True"
| "js_falsy _ = False"

definition js_PI :: jsnum where
  "js_PI = Fin pi"

text \<open>
  \<^verbatim>\<open>i++\<close> and \<^verbatim>\<open>i + 1\<close> on a counter that holds a non-negative integer: exact below
  \<open>2^53\<close>; at \<open>2^53\<close> the sum \<open>2^53 + 1\<close> rounds back to \<open>2^53\<close>.
\<close>

definition js_increment :: "nat \<Rightarrow> nat" where
  "js_increment i = (if i < 2 ^ 53 then i + 1 else i)"

section \<open>Geometry helpers\<close>

text \<open>A coordinate pair is a two-element array; a ring is an array of pairs.\<close>

type_synonym coord = "jsnum \<times> jsnum"
type_synonym ring = "coord list"

text \<open>
  The exceptions of the modelled code: a TypeError (a property read or a method call on
  \<^verbatim>\<open>undefined\<close>), and the two RangeErrors of Node's Buffer methods: \<^verbatim>\<open>ERR_OUT_OF_RANGE\<close>
  with the name of the argument that is out of range and the value received, and
  \<^verbatim>\<open>ERR_BUFFER_OUT_OF_BOUNDS\<close> for a buffer shorter than the value to write.
\<close>

datatype error =
    TypeError
  | ERR_OUT_OF_RANGE string int
  | ERR_BUFFER_OUT_OF_BOUNDS

text \<open>
  \<^verbatim>\<open>pointInPolygon(point, polygon)\<close>: the loop
  \<^verbatim>\<open>for (let i = 0, j = polygon.length - 1; i < polygon.length; j = i++)\<close>.
  The right operand of \<^verbatim>\<open>&&\<close> is evaluated only when the left one holds.
\<close>

definition pip_crosses :: "jsnum \<Rightarrow> jsnum \<Rightarrow> coord \<Rightarrow> coord \<Rightarrow> bool" where
  "pip_crosses x y p_i p_j =
     (let xi = fst p_i; yi = snd p_i; xj = fst p_j; yj = snd p_j in
      (js_gt yi y \<noteq> js_gt yj y) \<and>
      js_lt x (js_add (js_div (js_mul (js_sub xj xi) (js_sub y yi)) (js_sub yj yi)) xi))"

function pip_loop :: "jsnum \<Rightarrow> jsnum \<Rightarrow> ring \<Rightarrow> nat \<Rightarrow> nat \<Rightarrow> bool \<Rightarrow> bool" where
  "pip_loop x y polygon i j inside =
     (if i < length polygon
      then pip_loop x y polygon (i + 1) i
             (if pip_crosses x y (polygon ! i) (polygon ! j) then \<not> inside else inside)
      else inside)"
  by pat_completeness auto
termination
  by (relation "measure (\<lambda>(x, y, polygon, i, j, inside). length polygon - i)") auto

declare pip_loop.simps [simp del]

definition pointInPolygon :: "coord \<Rightarrow> ring \<Rightarrow> bool" where
  "pointInPolygon point polygon =
     pip_loop (fst point) (snd point) polygon 0 (length polygon - 1) False"

text \<open>
  \<^verbatim>\<open>intersectsPolygon\<close>: true as soon as one of the grid ring's coordinates is inside the
  area ring. The area is passed as its exterior ring
  \<^verbatim>\<open>areaPolygon.geometry.coordinates[0]\<close>.
\<close>

fun intersects_loop :: "ring \<Rightarrow> ring \<Rightarrow> bool" where
  "intersects_loop [] areaCoords = False"
| "intersects_loop (c # cs) areaCoords =
     (if pointInPolygon c areaCoords then True else intersects_loop cs areaCoords)"

definition intersectsPolygon :: "ring \<Rightarrow> ring \<Rightarrow> bool" where
  "intersectsPolygon gridCoords areaCoords = intersects_loop gridCoords areaCoords"

text \<open>
  \<^verbatim>\<open>calculateArea(coordinates)\<close> of \<^verbatim>\<open>server.js\<close>, on \<open>[lng, lat]\<close> pairs. The loop runs
  while \<^verbatim>\<open>i < coordinates.length - 1\<close>; reading \<^verbatim>\<open>coordinates[0][1]\<close> of an empty array
  raises a TypeError.
\<close>

function area_loop :: "ring \<Rightarrow> nat \<Rightarrow> jsnum \<Rightarrow> jsnum" where
  "area_loop coordinates i area =
     (if i + 1 < length coordinates
      then area_loop coordinates (i + 1)
             (js_sub
                (js_add area (js_mul (fst (coordinates ! i)) (snd (coordinates ! (i + 1)))))
                (js_mul (fst (coordinates ! (i + 1))) (snd (coordinates ! i))))
      else area)"
  by pat_completeness auto
termination
  by (relation "measure (\<lambda>(coordinates, i, area). length coordinates - i)") auto

declare area_loop.simps [simp del]

definition to_hectares :: "jsnum \<Rightarrow> jsnum \<Rightarrow> jsnum" where
  "to_hectares area refLat =
     js_div
       (js_mul (js_mul (js_mul area (Fin 111.32)) (Fin 111.32))
          (js_cos (js_div (js_mul refLat js_PI) (Fin 180))))
       (Fin 10000)"

definition calculateArea :: "ring \<Rightarrow> error + jsnum" where
  "calculateArea coordinates =
     (let area = js_div (js_abs (area_loop coordinates 0 (Fin 0))) (Fin 2) in
      case coordinates of
        [] \<Rightarrow> Inl TypeError
      | c0 # _ \<Rightarrow> Inr (to_hectares area (snd c0)))"

section \<open>Grid generation\<close>

text \<open>
  \<^verbatim>\<open>bounds\<close> is \<open>[[south, west], [north, east]]\<close>: \<^verbatim>\<open>bounds[0][0]\<close> is the south-west
  latitude and \<^verbatim>\<open>bounds[0][1]\<close> the south-west longitude.
\<close>

type_synonym bounds = "(jsnum \<times> jsnum) \<times> (jsnum \<times> jsnum)"

definition gridSizeMeters :: "jsnum \<Rightarrow> jsnum" where
  "gridSizeMeters gridSizeHa = js_sqrt (js_mul gridSizeHa (Fin 10000))"

definition latDiff :: "bounds \<Rightarrow> jsnum" where
  "latDiff bounds = js_sub (fst (snd bounds)) (fst (fst bounds))"

definition lngDiff :: "bounds \<Rightarrow> jsnum" where
  "lngDiff bounds = js_sub (snd (snd bounds)) (snd (fst bounds))"

definition latStep :: "bounds \<Rightarrow> jsnum \<Rightarrow> jsnum" where
  "latStep bounds gridSizeHa =
     js_div (gridSizeMeters gridSizeHa)
       (js_mul (Fin 111320) (js_cos (js_div (js_mul (snd (fst bounds)) js_PI) (Fin 180))))"

definition lngStep :: "jsnum \<Rightarrow> jsnum" where
  "lngStep gridSizeHa = js_div (gridSizeMeters gridSizeHa) (Fin 111320)"

definition numLatCells :: "bounds \<Rightarrow> jsnum \<Rightarrow> jsnum" where
  "numLatCells bounds gridSizeHa = js_ceil (js_div (latDiff bounds) (latStep bounds gridSizeHa))"

definition numLngCells :: "bounds \<Rightarrow> jsnum \<Rightarrow> jsnum" where
  "numLngCells bounds gridSizeHa = js_ceil (js_div (lngDiff bounds) (lngStep gridSizeHa))"

record grid_cell =
  cell_id :: nat
  cell_gridSize :: jsnum
  cell_area :: jsnum
  cell_ring :: ring

record grid_point =
  point_id :: nat
  point_gridSize :: jsnum
  point_latitude :: jsnum
  point_longitude :: jsnum
  point_coordinates :: coord

record grid_state =
  grid :: "grid_cell list"
  points :: "grid_point list"
  next_id :: nat

definition minLat :: "bounds \<Rightarrow> jsnum \<Rightarrow> nat \<Rightarrow> jsnum" where
  "minLat bounds gridSizeHa i =
     js_add (fst (fst bounds)) (js_mul (Fin (real i)) (latStep bounds gridSizeHa))"

definition maxLat :: "bounds \<Rightarrow> jsnum \<Rightarrow> nat \<Rightarrow> jsnum" where
  "maxLat bounds gridSizeHa i =
     js_add (fst (fst bounds))
       (js_mul (Fin (real (js_increment i))) (latStep bounds gridSizeHa))"

definition minLng :: "bounds \<Rightarrow> jsnum \<Rightarrow> nat \<Rightarrow> jsnum" where
  "minLng bounds gridSizeHa j =
     js_add (snd (fst bounds)) (js_mul (Fin (real j)) (lngStep gridSizeHa))"

definition maxLng :: "bounds \<Rightarrow> jsnum \<Rightarrow> nat \<Rightarrow> jsnum" where
  "maxLng bounds gridSizeHa j =
     js_add (snd (fst bounds)) (js_mul (Fin (real (js_increment j))) (lngStep gridSizeHa))"

definition gridRing :: "bounds \<Rightarrow> jsnum \<Rightarrow> nat \<Rightarrow> nat \<Rightarrow> ring" where
  "gridRing bounds gridSizeHa i j =
     [(minLng bounds gridSizeHa j, minLat bounds gridSizeHa i),
      (maxLng bounds gridSizeHa j, minLat bounds gridSizeHa i),
      (maxLng bounds gridSizeHa j, maxLat bounds gridSizeHa i),
      (minLng bounds gridSizeHa j, maxLat bounds gridSizeHa i),
      (minLng bounds gridSizeHa j, minLat bounds gridSizeHa i)]"

text \<open>
  The body of the inner loop. \<^verbatim>\<open>areaPolygon && intersectsPolygon(...)\<close>: a missing
  (\<^verbatim>\<open>null\<close>, \<^verbatim>\<open>undefined\<close>) area polygon is falsy, so the cell is skipped.
\<close>

definition cell_step :: "bounds \<Rightarrow> jsnum \<Rightarrow> ring option \<Rightarrow> nat \<Rightarrow> nat \<Rightarrow> grid_state \<Rightarrow> grid_state" where
  "cell_step bounds gridSizeHa areaPolygon i j st =
     (let ring = gridRing bounds gridSizeHa i j;
          gridPolygon = \<lparr>cell_id = next_id st, cell_gridSize = gridSizeHa,
                         cell_area = gridSizeHa, cell_ring = ring\<rparr>
      in case areaPolygon of
           None \<Rightarrow> st
         | Some areaCoords \<Rightarrow>
             if intersectsPolygon ring areaCoords
             then (let lat = js_div (js_add (minLat bounds gridSizeHa i) (maxLat bounds gridSizeHa i)) (Fin 2);
                       lng = js_div (js_add (minLng bounds gridSizeHa j) (maxLng bounds gridSizeHa j)) (Fin 2);
                       centroid = \<lparr>point_id = next_id st, point_gridSize = gridSizeHa,
                                    point_latitude = lat, point_longitude = lng,
                                    point_coordinates = (lng, lat)\<rparr>
                   in \<lparr>grid = grid st @ [gridPolygon], points = points st @ [centroid],
                       next_id = js_increment (next_id st)\<rparr>)
             else st)"

text \<open>
  The two \<^verbatim>\<open>for\<close> loops. Their bounds are JavaScript numbers: a bound of \<^verbatim>\<open>Infinity\<close>, or
  any bound above \<open>2^53\<close>, where the counter stops growing, keeps the loop running for ever.
  The loops are partial functions, and \<open>None\<close> is the run that does not return.
\<close>

partial_function (option) lng_loop ::
  "bounds \<Rightarrow> jsnum \<Rightarrow> ring option \<Rightarrow> nat \<Rightarrow> nat \<Rightarrow> grid_state \<Rightarrow> grid_state option" where
  "lng_loop bounds gridSizeHa areaPolygon i j st =
     (if js_lt (Fin (real j)) (numLngCells bounds gridSizeHa)
      then lng_loop bounds gridSizeHa areaPolygon i (js_increment j)
             (cell_step bounds gridSizeHa areaPolygon i j st)
      else Some st)"

partial_function (option) lat_loop ::
  "bounds \<Rightarrow> jsnum \<Rightarrow> ring option \<Rightarrow> nat \<Rightarrow> grid_state \<Rightarrow> grid_state option" where
  "lat_loop bounds gridSizeHa areaPolygon i st =
     (if js_lt (Fin (real i)) (numLatCells bounds gridSizeHa)
      then Option.bind (lng_loop bounds gridSizeHa areaPolygon i 0 st)
             (\<lambda>st'. lat_loop bounds gridSizeHa areaPolygon (js_increment i) st')
      else Some st)"

text \<open>A step that is infinite or at least \<open>1/111320\<close> in magnitude.\<close>

definition coarse_step :: "jsnum \<Rightarrow> bool" where
  "coarse_step v = (case v of Fin L \<Rightarrow> 1 / 111320 \<le> \<bar>L\<bar> | PInf \<Rightarrow> True | NInf \<Rightarrow> True | NaN \<Rightarrow> False)"

text \<open>The bounds that the counter of a loop never reaches.\<close>

definition beyond_counter :: "jsnum \<Rightarrow> bool" where
  "beyond_counter N = (case N of Fin b \<Rightarrow> 2 ^ 53 < b | PInf \<Rightarrow> True | NInf \<Rightarrow> False | NaN \<Rightarrow> False)"

definition generateGrid ::
  "bounds \<Rightarrow> jsnum \<Rightarrow> ring option \<Rightarrow> (grid_cell list \<times> grid_point list) option" where
  "generateGrid bounds gridSizeHa areaPolygon =
     map_option (\<lambda>st. (grid st, points st))
       (lat_loop bounds gridSizeHa areaPolygon 0 \<lparr>grid = [], points = [], next_id = 1\<rparr>)"

text \<open>
  The route \<^verbatim>\<open>POST /generate-grid\<close>: a missing or falsy \<^verbatim>\<open>bounds\<close> or \<^verbatim>\<open>gridSize\<close> is
  answered with status 400 before \<^verbatim>\<open>generateGrid\<close> is called.
\<close>

datatype response =
    Status400
  | Success "grid_cell list" "grid_point list"

definition generate_grid_route ::
  "bounds option \<Rightarrow> jsnum option \<Rightarrow> ring option \<Rightarrow> response option" where
  "generate_grid_route bounds gridSize areaPolygon =
     (case bounds of
        None \<Rightarrow> Some Status400
      | Some b \<Rightarrow>
          (case gridSize of
             None \<Rightarrow> Some Status400
           | Some g \<Rightarrow>
               if js_falsy g then Some Status400
               else map_option (\<lambda>(cells, pts). Success cells pts) (generateGrid b g areaPolygon)))"

text \<open>The closed rectangular ring of a bounding box, in \<open>[lng, lat]\<close> order.\<close>

definition bbox_ring :: "bounds \<Rightarrow> ring" where
  "bbox_ring bounds =
     (let south = fst (fst bounds); west = snd (fst bounds);
          north = fst (snd bounds); east = snd (snd bounds)
      in [(west, south), (east, south), (east, north), (west, north), (west, south)])"

section \<open>Node buffers\<close>

unbundle bit_operations_syntax

type_synonym byte = "8 word"
type_synonym buffer = "byte list"

text \<open>
  The shapefile encoders store coordinates without computing on them, so there a number
  is its IEEE-754 binary64 bit pattern, which \<^verbatim>\<open>writeDoubleLE\<close> lays out byte by byte.
\<close>

type_synonym double = "64 word"

definition alloc :: "nat \<Rightarrow> buffer" where
  "alloc n = replicate n 0"

definition put_bytes :: "byte list \<Rightarrow> nat \<Rightarrow> buffer \<Rightarrow> buffer" where
  "put_bytes bs offset buf = take offset buf @ bs @ drop (offset + length bs) buf"

definition be_bytes32 :: "32 word \<Rightarrow> byte list" where
  "be_bytes32 w = [ucast (drop_bit 24 w), ucast (drop_bit 16 w), ucast (drop_bit 8 w), ucast w]"

definition le_bytes32 :: "32 word \<Rightarrow> byte list" where
  "le_bytes32 w = [ucast w, ucast (drop_bit 8 w), ucast (drop_bit 16 w), ucast (drop_bit 24 w)]"

definition le_bytes16 :: "16 word \<Rightarrow> byte list" where
  "le_bytes16 w = [ucast w, ucast (drop_bit 8 w)]"

definition le_bytes64 :: "64 word \<Rightarrow> byte list" where
  "le_bytes64 w =
     [ucast w, ucast (drop_bit 8 w), ucast (drop_bit 16 w), ucast (drop_bit 24 w),
      ucast (drop_bit 32 w), ucast (drop_bit 40 w), ucast (drop_bit 48 w), ucast (drop_bit 56 w)]"

text \<open>
  The integer writers check the value first and the offset second; a write that does not
  fit inside the buffer raises (a Buffer never grows).
\<close>

definition bounds_error :: "nat \<Rightarrow> nat \<Rightarrow> buffer \<Rightarrow> error" where
  "bounds_error offset byteLength buf =
     (if length buf < byteLength then ERR_BUFFER_OUT_OF_BOUNDS
      else ERR_OUT_OF_RANGE ''offset'' (int offset))"

definition write_checked ::
  "int \<Rightarrow> int \<Rightarrow> int \<Rightarrow> byte list \<Rightarrow> nat \<Rightarrow> buffer \<Rightarrow> error + buffer" where
  "write_checked lo hi v bs offset buf =
     (if v < lo \<or> hi < v then Inl (ERR_OUT_OF_RANGE ''value'' v)
      else if length buf < offset + length bs then Inl (bounds_error offset (length bs) buf)
      else Inr (put_bytes bs offset buf))"

definition writeInt32BE :: "int \<Rightarrow> nat \<Rightarrow> buffer \<Rightarrow> error + buffer" where
  "writeInt32BE v offset buf =
     write_checked (- (2 ^ 31)) (2 ^ 31 - 1) v (be_bytes32 (word_of_int v)) offset buf"

definition writeInt32LE :: "int \<Rightarrow> nat \<Rightarrow> buffer \<Rightarrow> error + buffer" where
  "writeInt32LE v offset buf =
     write_checked (- (2 ^ 31)) (2 ^ 31 - 1) v (le_bytes32 (word_of_int v)) offset buf"

definition writeUInt32LE :: "int \<Rightarrow> nat \<Rightarrow> buffer \<Rightarrow> error + buffer" where
  "writeUInt32LE v offset buf =
     write_checked 0 (2 ^ 32 - 1) v (le_bytes32 (word_of_int v)) offset buf"

definition writeUInt16LE :: "int \<Rightarrow> nat \<Rightarrow> buffer \<Rightarrow> error + buffer" where
  "writeUInt16LE v offset buf =
     write_checked 0 (2 ^ 16 - 1) v (le_bytes16 (word_of_int v)) offset buf"

definition writeUInt8 :: "int \<Rightarrow> nat \<Rightarrow> buffer \<Rightarrow> error + buffer" where
  "writeUInt8 v offset buf = write_checked 0 255 v [word_of_int v] offset buf"

definition writeDoubleLE :: "double \<Rightarrow> nat \<Rightarrow> buffer \<Rightarrow> error + buffer" where
  "writeDoubleLE v offset buf =
     (if length buf < offset + 8 then Inl (bounds_error offset 8 buf)
      else Inr (put_bytes (le_bytes64 v) offset buf))"

text \<open>
  \<^verbatim>\<open>buf.write(string, offset, length, 'ascii')\<close>: \<open>offset\<close> and \<open>length\<close> must lie within
  \<open>0..buf.length\<close>; the bytes written are then cut to the room left after \<open>offset\<close>.
\<close>

definition write_ascii :: "string \<Rightarrow> nat \<Rightarrow> nat \<Rightarrow> buffer \<Rightarrow> error + buffer" where
  "write_ascii str offset len buf =
     (if length buf < offset then Inl (ERR_OUT_OF_RANGE ''offset'' (int offset))
      else if length buf < len then Inl (ERR_OUT_OF_RANGE ''length'' (int len))
      else Inr (put_bytes (map of_char (take (min len (length buf - offset)) str)) offset buf))"

text \<open>A run of consecutive writes on one buffer stops at the first exception.\<close>

datatype write_op =
    Int32BE int nat
  | Int32LE int nat
  | UInt32LE int nat
  | UInt16LE int nat
  | UInt8 int nat
  | DoubleLE double nat
  | Ascii string nat nat

fun run_write :: "write_op \<Rightarrow> buffer \<Rightarrow> error + buffer" where
  "run_write (Int32BE v offset) buf = writeInt32BE v offset buf"
| "run_write (Int32LE v offset) buf = writeInt32LE v offset buf"
| "run_write (UInt32LE v offset) buf = writeUInt32LE v offset buf"
| "run_write (UInt16LE v offset) buf = writeUInt16LE v offset buf"
| "run_write (UInt8 v offset) buf = writeUInt8 v offset buf"
| "run_write (DoubleLE v offset) buf = writeDoubleLE v offset buf"
| "run_write (Ascii str offset len) buf = write_ascii str offset len buf"

fun run_writes :: "write_op list \<Rightarrow> buffer \<Rightarrow> error + buffer" where
  "run_writes [] buf = Inr buf"
| "run_writes (w # ws) buf =
     (case run_write w buf of Inl e \<Rightarrow> Inl e | Inr buf' \<Rightarrow> run_writes ws buf')"

definition and_then :: "error + 'a \<Rightarrow> ('a \<Rightarrow> error + 'b) \<Rightarrow> error + 'b" where
  "and_then r f = (case r of Inl e \<Rightarrow> Inl e | Inr v \<Rightarrow> f v)"

text \<open>Reading a little-endian double back, as a consumer of the geometry stream does.\<close>

definition le_word64 :: "byte list \<Rightarrow> 64 word" where
  "le_word64 bs = foldr (\<lambda>b acc. ucast b OR push_bit 8 acc) bs 0"

definition readDoubleLE :: "buffer \<Rightarrow> nat \<Rightarrow> error + double" where
  "readDoubleLE buf offset =
     (if length buf < offset + 8 then Inl (bounds_error offset 8 buf)
      else Inr (le_word64 (take 8 (drop offset buf))))"

text \<open>
  The number a binary64 bit pattern stands for: sign bit, 11-bit biased exponent \<open>e\<close> and
  52-bit fraction \<open>m\<close>.
\<close>

definition ieee_value :: "bool \<Rightarrow> nat \<Rightarrow> nat \<Rightarrow> jsnum" where
  "ieee_value negative e m =
     (let sgn = (if negative then - 1 else 1 :: real)
      in if e = 2047 then (if m = 0 then (if negative then NInf else PInf) else NaN)
         else if e = 0 then Fin (sgn * real m / 2 ^ 1074)
         else if 1075 \<le> e then Fin (sgn * real (2 ^ 52 + m) * 2 ^ (e - 1075))
         else Fin (sgn * real (2 ^ 52 + m) / 2 ^ (1075 - e)))"

definition double_val :: "double \<Rightarrow> jsnum" where
  "double_val w =
     ieee_value (bit w 63) (unat (take_bit 11 (drop_bit 52 w))) (unat (take_bit 52 w))"

section \<open>Number formatting\<close>

definition digit_char :: "nat \<Rightarrow> char" where
  "digit_char d = ''0123456789'' ! d"

fun nat_digits :: "nat \<Rightarrow> string" where
  "nat_digits n = (if n < 10 then [digit_char n] else nat_digits (n div 10) @ [digit_char (n mod 10)])"

declare nat_digits.simps [simp del]

text \<open>\<^verbatim>\<open>toString()\<close> of an integer-valued number.\<close>

definition int_toString :: "int \<Rightarrow> string" where
  "int_toString v = (if v < 0 then ''-'' @ nat_digits (nat (- v)) else nat_digits (nat v))"

definition padStart :: "nat \<Rightarrow> char \<Rightarrow> string \<Rightarrow> string" where
  "padStart n c s = replicate (n - length s) c @ s"

definition padEnd :: "nat \<Rightarrow> char \<Rightarrow> string \<Rightarrow> string" where
  "padEnd n c s = s @ replicate (n - length s) c"

text \<open>
  \<^verbatim>\<open>toFixed(6)\<close>: the sign, then the integer \<open>n\<close> nearest to \<open>|x| * 10^6\<close> (the larger one
  on a tie) written with at least seven digits and a point before the last six. From
  \<open>10^21\<close> upwards JavaScript prints the number in exponent form instead, which is not
  modelled here: coordinates in degrees stay far below.
\<close>

definition toFixed6 :: "jsnum \<Rightarrow> string" where
  "toFixed6 v =
     (case v of
        NaN \<Rightarrow> ''NaN''
      | PInf \<Rightarrow> ''Infinity''
      | NInf \<Rightarrow> ''-Infinity''
      | Fin x \<Rightarrow>
          (let s = (if x < 0 then ''-'' else []);
               n = nat \<lfloor>\<bar>x\<bar> * 10 ^ 6 + 1 / 2\<rfloor>;
               m = nat_digits n;
               m' = replicate (7 - length m) (CHR ''0'') @ m;
               k = length m'
           in s @ take (k - 6) m' @ ''.'' @ drop (k - 6) m'))"

section \<open>Shapefile export\<close>

datatype geometry =
    Point double double
  | Polygon "(double \<times> double) list list"

text \<open>
  A feature as the export route receives it. \<^verbatim>\<open>id\<close> and \<^verbatim>\<open>gridSize\<close> are integer-valued;
  \<^verbatim>\<open>latitude\<close> and \<^verbatim>\<open>longitude\<close> are present on the centroid points only.
\<close>

record properties =
  prop_id :: int
  prop_gridSize :: int
  prop_latitude :: "double option"
  prop_longitude :: "double option"

record feature =
  properties :: properties
  geometry :: geometry

definition shp_header ::
  "nat \<Rightarrow> string \<Rightarrow> double \<Rightarrow> double \<Rightarrow> double \<Rightarrow> double \<Rightarrow> nat \<Rightarrow> error + buffer" where
  "shp_header n type minX minY maxX maxY perRecord =
     (let fileLength = 50 + int n * int perRecord;
          shapeType = (if type = ''points'' then 1 else 5)
      in run_writes
           [Int32BE 9994 0, Int32BE fileLength 24, Int32LE 1000 28, Int32LE shapeType 32,
            DoubleLE minX 36, DoubleLE minY 44, DoubleLE maxX 52, DoubleLE maxY 60,
            DoubleLE 0 68, DoubleLE 0 76, DoubleLE 0 84, DoubleLE 0 92]
           (alloc 100))"

text \<open>The writes of the points array: \<^verbatim>\<open>pointOffset\<close> starts at 48 and advances by 16.\<close>

fun point_writes :: "(double \<times> double) list \<Rightarrow> nat \<Rightarrow> write_op list" where
  "point_writes [] pointOffset = []"
| "point_writes (coord # coords) pointOffset =
     DoubleLE (fst coord) pointOffset # DoubleLE (snd coord) (pointOffset + 8)
       # point_writes coords (pointOffset + 16)"

text \<open>
  The 28-byte \<^verbatim>\<open>recordBuffer\<close> of one feature. For a polygon,
  \<^verbatim>\<open>feature.geometry.coordinates[0]\<close> is read after the number of parts is written.
\<close>

definition shp_recordBuffer ::
  "feature \<Rightarrow> double \<Rightarrow> double \<Rightarrow> double \<Rightarrow> double \<Rightarrow> error + buffer" where
  "shp_recordBuffer f minX minY maxX maxY =
     (case geometry f of
        Point x y \<Rightarrow> run_writes [Int32LE 1 0, DoubleLE x 4, DoubleLE y 12] (alloc 28)
      | Polygon rings \<Rightarrow>
          and_then
            (run_writes
               [Int32LE 5 0, DoubleLE minX 4, DoubleLE minY 12, DoubleLE maxX 20,
                DoubleLE maxY 28, Int32LE 1 36]
               (alloc 28))
            (\<lambda>buf. case rings of
                      [] \<Rightarrow> Inl TypeError
                    | ring # _ \<Rightarrow>
                        run_writes
                          ([Int32LE (int (length ring)) 40, Int32LE 0 44] @ point_writes ring 48)
                          buf))"

fun shp_records ::
  "feature list \<Rightarrow> nat \<Rightarrow> double \<Rightarrow> double \<Rightarrow> double \<Rightarrow> double \<Rightarrow> buffer \<Rightarrow> error + buffer" where
  "shp_records [] index minX minY maxX maxY buffer = Inr buffer"
| "shp_records (f # fs) index minX minY maxX maxY buffer =
     and_then (run_writes [Int32BE (int index + 1) 0, Int32BE 28 4] (alloc 8))
       (\<lambda>recordHeader.
          and_then (shp_recordBuffer f minX minY maxX maxY)
            (\<lambda>recordBuffer.
               shp_records fs (index + 1) minX minY maxX maxY
                 (buffer @ recordHeader @ recordBuffer)))"

definition createShapefileBuffer ::
  "feature list \<Rightarrow> string \<Rightarrow> double \<Rightarrow> double \<Rightarrow> double \<Rightarrow> double \<Rightarrow> error + buffer" where
  "createShapefileBuffer features type minX minY maxX maxY =
     and_then (shp_header (length features) type minX minY maxX maxY 28)
       (\<lambda>buffer. shp_records features 0 minX minY maxX maxY buffer)"

fun shx_records :: "feature list \<Rightarrow> int \<Rightarrow> buffer \<Rightarrow> error + buffer" where
  "shx_records [] offset buffer = Inr buffer"
| "shx_records (f # fs) offset buffer =
     and_then (run_writes [Int32BE (offset div 2) 0, Int32BE 28 4] (alloc 8))
       (\<lambda>indexRecord. shx_records fs (offset + 36) (buffer @ indexRecord))"

definition createSHXBuffer ::
  "feature list \<Rightarrow> string \<Rightarrow> double \<Rightarrow> double \<Rightarrow> double \<Rightarrow> double \<Rightarrow> error + buffer" where
  "createSHXBuffer features type minX minY maxX maxY =
     and_then (shp_header (length features) type minX minY maxX maxY 4)
       (\<lambda>buffer. shx_records features 50 buffer)"

text \<open>
  The attribute table. \<^verbatim>\<open>new Date()\<close> is the one ambient input of the encoders: the
  current date is a parameter of the model.
\<close>

record date =
  getFullYear :: int
  getMonth :: int
  getDate :: int

definition dbf_header :: "date \<Rightarrow> nat \<Rightarrow> error + buffer" where
  "dbf_header today n =
     (let headerLength = 32 + (4 * 32) + 1
      in run_writes
           [UInt8 3 0,
            UInt8 (getFullYear today - 1900) 1,
            UInt8 (getMonth today + 1) 2,
            UInt8 (getDate today) 3,
            UInt32LE (int n) 4,
            UInt16LE headerLength 8,
            UInt16LE 32 10]
           (alloc 32))"

record field =
  field_name :: string
  field_type :: char
  field_length :: int
  field_decimal :: int

definition fields :: "field list" where
  "fields =
     [\<lparr>field_name = ''ID'', field_type = CHR ''N'', field_length = 10, field_decimal = 0\<rparr>,
      \<lparr>field_name = ''GRIDSIZE'', field_type = CHR ''N'', field_length = 10, field_decimal = 0\<rparr>,
      \<lparr>field_name = ''LATITUDE'', field_type = CHR ''N'', field_length = 15, field_decimal = 6\<rparr>,
      \<lparr>field_name = ''LONGITUDE'', field_type = CHR ''N'', field_length = 15, field_decimal = 6\<rparr>]"

definition dbf_fieldDesc :: "field \<Rightarrow> error + buffer" where
  "dbf_fieldDesc fld =
     run_writes
       [Ascii (padEnd 11 (CHR 0x00) (field_name fld)) 0 11,
        UInt8 (of_char (field_type fld)) 11,
        UInt32LE 0 12,
        UInt8 (field_length fld) 16,
        UInt8 (field_decimal fld) 17]
       (alloc 32)"

fun dbf_fields :: "field list \<Rightarrow> buffer \<Rightarrow> error + buffer" where
  "dbf_fields [] buffer = Inr buffer"
| "dbf_fields (fld # flds) buffer =
     and_then (dbf_fieldDesc fld) (\<lambda>fieldDesc. dbf_fields flds (buffer @ fieldDesc))"

text \<open>
  \<^verbatim>\<open>feature.properties.latitude || feature.geometry.coordinates[1]\<close>: the property when it
  is truthy, else the entry of the geometry's coordinates, which is a number for a point
  only; \<^verbatim>\<open>toFixed\<close> on anything else raises a TypeError.
\<close>

definition or_coordinate ::
  "double option \<Rightarrow> geometry \<Rightarrow> (double \<times> double \<Rightarrow> double) \<Rightarrow> error + double" where
  "or_coordinate prop g sel =
     (case (case prop of
              None \<Rightarrow> None
            | Some v \<Rightarrow> if js_falsy (double_val v) then None else Some v) of
        Some v \<Rightarrow> Inr v
      | None \<Rightarrow> (case g of Point x y \<Rightarrow> Inr (sel (x, y)) | Polygon rings \<Rightarrow> Inl TypeError))"

definition dbf_record :: "feature \<Rightarrow> error + buffer" where
  "dbf_record f =
     (let id = padStart 10 (CHR '' '') (int_toString (prop_id (properties f)));
          gridSize = padStart 10 (CHR '' '') (int_toString (prop_gridSize (properties f)))
      in and_then (run_writes [UInt8 0x20 0, Ascii id 1 10, Ascii gridSize 11 10] (alloc 32))
           (\<lambda>record.
              and_then (or_coordinate (prop_latitude (properties f)) (geometry f) snd)
                (\<lambda>lat.
                   and_then
                     (write_ascii (padStart 15 (CHR '' '') (toFixed6 (double_val lat))) 21 15 record)
                     (\<lambda>record.
                        and_then (or_coordinate (prop_longitude (properties f)) (geometry f) fst)
                          (\<lambda>lng.
                             write_ascii (padStart 15 (CHR '' '') (toFixed6 (double_val lng))) 21 15
                               record)))))"

fun dbf_records :: "feature list \<Rightarrow> buffer \<Rightarrow> error + buffer" where
  "dbf_records [] buffer = Inr buffer"
| "dbf_records (f # fs) buffer =
     and_then (dbf_record f) (\<lambda>record. dbf_records fs (buffer @ record))"

definition createDBFBuffer :: "date \<Rightarrow> feature list \<Rightarrow> error + buffer" where
  "createDBFBuffer today features =
     and_then (dbf_header today (length features))
       (\<lambda>buffer.
          and_then (dbf_fields fields buffer)
            (\<lambda>buffer.
               and_then (writeUInt8 0x0D (length buffer) buffer)
                 (\<lambda>buffer.
                    and_then (dbf_records features buffer)
                      (\<lambda>buffer. writeUInt8 0x1A (length buffer) buffer))))"

section \<open>Sample features\<close>

text \<open>
  The point feature \<open>{id: 1, gridSize: 2, lat: -27.6321, lng: -53.4701}\<close>: each
  coordinate is the binary64 number nearest to the decimal literal.
\<close>

definition point_feature :: feature where
  "point_feature =
     \<lparr>properties = \<lparr>prop_id = 1, prop_gridSize = 2,
                      prop_latitude = Some 0xC03BA1D14E3BCD36,
                      prop_longitude = Some 0xC04ABC2C3C9EECC0\<rparr>,
      geometry = Point 0xC04ABC2C3C9EECC0 0xC03BA1D14E3BCD36\<rparr>"

text \<open>A polygon feature: the closed unit square (\<open>0x3FF0000000000000\<close> is \<open>1.0\<close>).\<close>

definition square_feature :: feature where
  "square_feature =
     \<lparr>properties = \<lparr>prop_id = 1, prop_gridSize = 2,
                      prop_latitude = None, prop_longitude = None\<rparr>,
      geometry = Polygon [[(0, 0), (0x3FF0000000000000, 0),
                           (0x3FF0000000000000, 0x3FF0000000000000),
                           (0, 0x3FF0000000000000), (0, 0)]]\<rparr>"

text \<open>
  Re-reading the first record of a point geometry stream: after the 100-byte file header,
  the 8-byte record header and the 4-byte shape code come \<open>x\<close> at byte 112 and \<open>y\<close> at
  byte 120.
\<close>

definition read_first_point :: "buffer \<Rightarrow> error + (jsnum \<times> jsnum)" where
  "read_first_point buf =
     and_then (readDoubleLE buf 112)
       (\<lambda>x. and_then (readDoubleLE buf 120) (\<lambda>y. Inr (double_val x, double_val y)))"

section \<open>Rings\<close>

text \<open>
  The closed rings of the axis-aligned rectangle with corners \<open>(x0, y0)\<close> and \<open>(x1, y1)\<close>:
  either orientation, starting at any corner.
\<close>

definition rectangle_rings :: "real \<Rightarrow> real \<Rightarrow> real \<Rightarrow> real \<Rightarrow> ring list" where
  "rectangle_rings x0 y0 x1 y1 =
     (let a = (Fin x0, Fin y0); b = (Fin x1, Fin y0); c = (Fin x1, Fin y1); d = (Fin x0, Fin y1)
      in [[a, b, c, d, a], [b, c, d, a, b], [c, d, a, b, c], [d, a, b, c, d],
          [a, d, c, b, a], [d, c, b, a, d], [c, b, a, d, c], [b, a, d, c, b]])"

text \<open>
  Rings with finite coordinates, the closed ring of an open vertex cycle, and the shoelace
  sum along a vertex path, which is what the loop of \<^verbatim>\<open>calculateArea\<close> accumulates.
\<close>

definition fin_ring :: "(real \<times> real) list \<Rightarrow> ring" where
  "fin_ring ps = map (\<lambda>p. (Fin (fst p), Fin (snd p))) ps"

definition closed_ring :: "'a list \<Rightarrow> 'a list" where
  "closed_ring c = c @ [hd c]"

definition cross :: "real \<times> real \<Rightarrow> real \<times> real \<Rightarrow> real" where
  "cross p q = fst p * snd q - fst q * snd p"

fun path_sum :: "(real \<times> real) list \<Rightarrow> real" where
  "path_sum (p # q # ps) = cross p q + path_sum (q # ps)"
| "path_sum ps = 0"

section \<open>Polygon area in the map client\<close>

text \<open>
  \<^verbatim>\<open>calculatePolygonArea(coordinates)\<close> of the map client. A vertex is a Leaflet
  \<open>{lat, lng}\<close> object or a \<open>[lat, lng]\<close> array, read as
  \<^verbatim>\<open>coordinates[i].lat || coordinates[i][0]\<close>: a falsy \<^verbatim>\<open>lat\<close> of an object falls through to
  index 0, which an object does not have, and \<^verbatim>\<open>undefined\<close> is \<^verbatim>\<open>NaN\<close> in the arithmetic
  that follows. The next vertex is taken modulo the length; \<^verbatim>\<open>coordinates[0].lat\<close> of an
  empty array raises a TypeError.
\<close>

datatype latlng = LatLng jsnum jsnum | LatLngArray jsnum jsnum

fun coord_lat :: "latlng \<Rightarrow> jsnum" where
  "coord_lat (LatLng lat lng) = (if js_falsy lat then NaN else lat)"
| "coord_lat (LatLngArray lat lng) = lat"

fun coord_lng :: "latlng \<Rightarrow> jsnum" where
  "coord_lng (LatLng lat lng) = (if js_falsy lng then NaN else lng)"
| "coord_lng (LatLngArray lat lng) = lng"

function polygon_area_loop :: "latlng list \<Rightarrow> nat \<Rightarrow> jsnum \<Rightarrow> jsnum" where
  "polygon_area_loop coordinates i area =
     (if i < length coordinates
      then (let j = (i + 1) mod length coordinates;
                lat1 = coord_lat (coordinates ! i);
                lng1 = coord_lng (coordinates ! i);
                lat2 = coord_lat (coordinates ! j);
                lng2 = coord_lng (coordinates ! j)
            in polygon_area_loop coordinates (i + 1)
                 (js_sub (js_add area (js_mul lng1 lat2)) (js_mul lng2 lat1)))
      else area)"
  by pat_completeness auto
termination
  by (relation "measure (\<lambda>(coordinates, i, area). length coordinates - i)") auto

declare polygon_area_loop.simps [simp del]

definition calculatePolygonArea :: "latlng list \<Rightarrow> error + jsnum" where
  "calculatePolygonArea coordinates =
     (let area = js_div (js_abs (polygon_area_loop coordinates 0 (Fin 0))) (Fin 2) in
      case coordinates of
        [] \<Rightarrow> Inl TypeError
      | c0 # _ \<Rightarrow> Inr (to_hectares area (coord_lat c0)))"

text \<open>A ring of \<open>(lng, lat)\<close> pairs as the client's \<open>[lat, lng]\<close> arrays.\<close>

definition latlng_ring :: "(real \<times> real) list \<Rightarrow> latlng list" where
  "latlng_ring ps = map (\<lambda>p. LatLngArray (Fin (snd p)) (Fin (fst p))) ps"


section \<open>Overflow and counters\<close>

lemma overflow_threshold_large: "2 ^ 64 < overflow_threshold"
  by (simp add: overflow_threshold_def)

lemma overflow_threshold_pos: "0 < overflow_threshold"
  using overflow_threshold_large by (rule less_trans [rotated]) simp

lemma js_fin_eq: "\<bar>r\<bar> < overflow_threshold \<Longrightarrow> js_fin r = Fin r"
  by (auto simp add: js_fin_def)

lemma js_fin_small: "\<bar>r\<bar> \<le> 2 ^ 64 \<Longrightarrow> js_fin r = Fin r"
  using overflow_threshold_large by (intro js_fin_eq) linarith

lemma js_fin_zero: "js_fin 0 = Fin 0"
  by (rule js_fin_small) simp

lemma js_increment_below: "i < 2 ^ 53 \<Longrightarrow> js_increment i = Suc i"
  by (simp add: js_increment_def)

lemma js_increment_le: "i \<le> 2 ^ 53 \<Longrightarrow> js_increment i \<le> 2 ^ 53"
  by (simp add: js_increment_def)

text \<open>The cosine of an angle of at most 180 degrees, converted to radians.\<close>

lemma cos_degrees:
  assumes "\<bar>w\<bar> \<le> 180"
  shows "js_cos (js_div (js_mul (Fin w) js_PI) (Fin 180)) = Fin (cos (w * pi / 180))"
proof -
  have "\<bar>w\<bar> * pi \<le> 180 * 4"
    by (rule mult_mono) (use assms pi_less_4 in simp_all)
  then have p: "\<bar>w * pi\<bar> \<le> 180 * 4"
    by (simp add: abs_mult)
  then have a: "js_fin (w * pi) = Fin (w * pi)"
    by (intro js_fin_small) simp
  have "\<bar>w * pi / 180\<bar> \<le> 2 ^ 64" using p by simp
  then have b: "js_fin (w * pi / 180) = Fin (w * pi / 180)"
    by (rule js_fin_small)
  show ?thesis
    by (simp add: js_PI_def a b)
qed

section \<open>The loops of the grid generator\<close>

lemma js_lt_nat_Fin: "js_lt (Fin (real j)) (Fin b) = (j < nat \<lceil>b\<rceil>)"
  by (simp add: zless_nat_eq_int_zless less_ceiling_iff)

lemma nat_ceiling_le_2_53: "b \<le> 2 ^ 53 \<Longrightarrow> nat \<lceil>b\<rceil> \<le> 2 ^ 53"
proof -
  assume "b \<le> 2 ^ 53"
  then have "\<lceil>b\<rceil> \<le> 2 ^ 53" by (simp add: ceiling_le_iff)
  then show ?thesis by (simp add: nat_le_iff)
qed

text \<open>
  A finite bound of at most \<open>2^53\<close>: the inner loop runs over \<open>j = 0, 1, ...\<close> below the
  bound and returns.
\<close>

lemma lng_loop_finite:
  assumes "numLngCells bounds g = Fin b" and "b \<le> 2 ^ 53"
  shows "lng_loop bounds g area i j st = Some (fold (cell_step bounds g area i) [j..<nat \<lceil>b\<rceil>] st)"
proof (induction "nat \<lceil>b\<rceil> - j" arbitrary: j st)
  case 0
  then have ge: "nat \<lceil>b\<rceil> \<le> j" by linarith
  have nlt: "\<not> j < nat \<lceil>b\<rceil>" using ge by linarith
  have e: "[j..<nat \<lceil>b\<rceil>] = []" by (rule upt_conv_Nil [OF ge])
  show ?case
    by (subst lng_loop.simps) (simp add: assms js_lt_nat_Fin nlt e del: js_lt.simps)
next
  case (Suc k)
  then have lt: "j < nat \<lceil>b\<rceil>" and k: "k = nat \<lceil>b\<rceil> - Suc j" by linarith+
  have "j < 2 ^ 53" using lt nat_ceiling_le_2_53 [OF assms(2)] by linarith
  then have inc: "js_increment j = Suc j" by (rule js_increment_below)
  show ?case
    by (subst lng_loop.simps)
       (simp add: assms js_lt_nat_Fin lt inc Suc.hyps(1) [OF k] upt_conv_Cons del: js_lt.simps)
qed

lemma lat_loop_finite:
  assumes "numLatCells bounds g = Fin a" and "a \<le> 2 ^ 53"
    and "numLngCells bounds g = Fin b" and "b \<le> 2 ^ 53"
  shows "lat_loop bounds g area i st =
    Some (fold (\<lambda>i. fold (cell_step bounds g area i) [0..<nat \<lceil>b\<rceil>]) [i..<nat \<lceil>a\<rceil>] st)"
proof (induction "nat \<lceil>a\<rceil> - i" arbitrary: i st)
  case 0
  then have ge: "nat \<lceil>a\<rceil> \<le> i" by linarith
  have nlt: "\<not> i < nat \<lceil>a\<rceil>" using ge by linarith
  have e: "[i..<nat \<lceil>a\<rceil>] = []" by (rule upt_conv_Nil [OF ge])
  show ?case
    by (subst lat_loop.simps) (simp add: assms js_lt_nat_Fin nlt e del: js_lt.simps)
next
  case (Suc k)
  then have lt: "i < nat \<lceil>a\<rceil>" and k: "k = nat \<lceil>a\<rceil> - Suc i" by linarith+
  have "i < 2 ^ 53" using lt nat_ceiling_le_2_53 [OF assms(2)] by linarith
  then have inc: "js_increment i = Suc i" by (rule js_increment_below)
  show ?case
    by (subst lat_loop.simps)
       (simp add: assms(1) js_lt_nat_Fin lt inc lng_loop_finite [OF assms(3,4)] Suc.hyps(1) [OF k]
          upt_conv_Cons del: js_lt.simps)
qed

lemma lat_loop_not_entered:
  "\<not> js_lt (Fin 0) (numLatCells bounds g) \<Longrightarrow> lat_loop bounds g area 0 st = Some st"
  by (subst lat_loop.simps) simp

text \<open>
  A bound of \<^verbatim>\<open>Infinity\<close> or above \<open>2^53\<close>: the counter never reaches it and the loop never
  returns.
\<close>

lemma js_lt_beyond:
  "beyond_counter N \<Longrightarrow> j \<le> 2 ^ 53 \<Longrightarrow> js_lt (Fin (real j)) N"
proof (cases N)
  case (Fin b)
  assume "beyond_counter N" "j \<le> 2 ^ 53"
  then have "2 ^ 53 < b" "real j \<le> 2 ^ 53"
    using Fin by (simp_all add: beyond_counter_def flip: of_nat_le_iff)
  then show ?thesis using Fin by simp
qed (simp_all add: beyond_counter_def)

lemma lng_loop_returns_within:
  assumes "lng_loop bounds g area i j st = Some r"
  shows "\<not> (beyond_counter (numLngCells bounds g) \<and> j \<le> 2 ^ 53)"
proof (rule lng_loop.raw_induct
    [where P = "\<lambda>bounds g area i j st r. \<not> (beyond_counter (numLngCells bounds g) \<and> j \<le> 2 ^ 53)",
      OF _ assms])
  fix f bounds g area i j st y
  assume IH: "\<And>bounds g area i j st y. f bounds g area i j st = Some y \<Longrightarrow>
      \<not> (beyond_counter (numLngCells bounds g) \<and> j \<le> 2 ^ 53)"
    and step: "(if js_lt (Fin (real j)) (numLngCells bounds g)
                then f bounds g area i (js_increment j) (cell_step bounds g area i j st)
                else Some st) = Some y"
  show "\<not> (beyond_counter (numLngCells bounds g) \<and> j \<le> 2 ^ 53)"
  proof
    assume b: "beyond_counter (numLngCells bounds g) \<and> j \<le> 2 ^ 53"
    then have "js_lt (Fin (real j)) (numLngCells bounds g)" by (simp add: js_lt_beyond)
    with step have "f bounds g area i (js_increment j) (cell_step bounds g area i j st) = Some y"
      by simp
    from IH [OF this] b js_increment_le [of j] show False by blast
  qed
qed

lemma lng_loop_never_returns:
  assumes "beyond_counter (numLngCells bounds g)"
  shows "lng_loop bounds g area i 0 st = None"
  using assms lng_loop_returns_within [of bounds g area i 0 st]
  by (cases "lng_loop bounds g area i 0 st") auto

lemma lat_loop_never_returns:
  assumes "js_lt (Fin 0) (numLatCells bounds g)" and "beyond_counter (numLngCells bounds g)"
  shows "lat_loop bounds g area 0 st = None"
  using assms by (subst lat_loop.simps) (simp add: lng_loop_never_returns)

lemma fold_cell_step_None: "fold (cell_step bounds g None i) js st = st"
  by (induction js) (simp_all add: cell_step_def)

lemma fold_fold_cell_step_None:
  "fold (\<lambda>i. fold (cell_step bounds g None i) js) is st = st"
  by (induction "is") (simp_all add: fold_cell_step_None)

lemma fold_nothing: "fold (\<lambda>i. id) xs st = st"
  by (induction xs) simp_all

section \<open>Step sizes and cell counts\<close>

lemma sqrt_million: "sqrt (100 * 10000) = 1000"
  by (rule real_sqrt_unique) simp_all

text \<open>
  A cell area of at least one square metre: the cell edge is at least one metre, or
  \<^verbatim>\<open>Infinity\<close> when the area in square metres overflows.
\<close>

lemma gridSizeMeters_cases:
  assumes "1 / 10000 \<le> g"
  shows "gridSizeMeters (Fin g) = PInf \<or>
         (\<exists>q. gridSizeMeters (Fin g) = Fin q \<and> 1 \<le> q \<and> q < overflow_threshold)"
proof (cases "overflow_threshold \<le> g * 10000")
  case True
  then show ?thesis by (simp add: gridSizeMeters_def js_fin_def)
next
  case False
  have x: "1 \<le> g * 10000" using assms by simp
  have "(g * 10000) * 1 \<le> (g * 10000) * (g * 10000)"
    by (rule mult_left_mono) (use x in simp_all)
  then have "g * 10000 \<le> (g * 10000)\<^sup>2"
    by (simp only: power2_eq_square mult_1_right)
  then have "sqrt (g * 10000) \<le> g * 10000"
    using x by (intro real_le_lsqrt) simp_all
  moreover have "1 \<le> sqrt (g * 10000)" using x by simp
  moreover have "gridSizeMeters (Fin g) = Fin (sqrt (g * 10000))"
    using False x by (simp add: gridSizeMeters_def js_fin_def)
  ultimately show ?thesis using False by auto
qed

lemma lngStep_coarse:
  assumes "1 / 10000 \<le> g"
  shows "coarse_step (lngStep (Fin g))"
  using gridSizeMeters_cases [OF assms]
proof
  assume "gridSizeMeters (Fin g) = PInf"
  then show ?thesis by (simp add: lngStep_def coarse_step_def)
next
  assume "\<exists>q. gridSizeMeters (Fin g) = Fin q \<and> 1 \<le> q \<and> q < overflow_threshold"
  then obtain q where q: "gridSizeMeters (Fin g) = Fin q" "1 \<le> q" "q < overflow_threshold"
    by blast
  have "\<bar>q / 111320\<bar> < overflow_threshold" using q(2,3) by simp
  then have "lngStep (Fin g) = Fin (q / 111320)"
    by (simp add: lngStep_def q(1) js_fin_eq)
  then show ?thesis using q(2) by (simp add: coarse_step_def)
qed

lemma cos_factor:
  assumes "\<bar>w\<bar> \<le> 180"
  shows "js_mul (Fin 111320) (js_cos (js_div (js_mul (Fin w) js_PI) (Fin 180))) =
           Fin (111320 * cos (w * pi / 180))"
proof -
  have "\<bar>111320 * cos (w * pi / 180)\<bar> \<le> 111320"
    by (simp add: abs_mult)
  then have "\<bar>111320 * cos (w * pi / 180)\<bar> \<le> 2 ^ 64"
    by simp
  then have "js_fin (111320 * cos (w * pi / 180)) = Fin (111320 * cos (w * pi / 180))"
    by (rule js_fin_small)
  then show ?thesis
    by (simp add: cos_degrees [OF assms])
qed

lemma latStep_coarse:
  assumes "1 / 10000 \<le> g" and "\<bar>w\<bar> \<le> 180"
  shows "coarse_step (latStep ((s', Fin w), ne) (Fin g))"
proof -
  define k where "k = 111320 * cos (w * pi / 180)"
  have k: "\<bar>k\<bar> \<le> 111320" by (simp add: k_def abs_mult)
  have step: "latStep ((s', Fin w), ne) (Fin g) = js_div (gridSizeMeters (Fin g)) (Fin k)"
    by (simp add: latStep_def cos_factor [OF assms(2)] k_def)
  from gridSizeMeters_cases [OF assms(1)] show ?thesis
  proof
    assume "gridSizeMeters (Fin g) = PInf"
    then show ?thesis by (simp add: step coarse_step_def)
  next
    assume "\<exists>q. gridSizeMeters (Fin g) = Fin q \<and> 1 \<le> q \<and> q < overflow_threshold"
    then obtain q where q: "gridSizeMeters (Fin g) = Fin q" "1 \<le> q" by blast
    show ?thesis
    proof (cases "k = 0")
      case True
      then show ?thesis using q by (simp add: step coarse_step_def inf_signed_def)
    next
      case False
      have "1 / 111320 \<le> q / \<bar>k\<bar>"
        using q(2) k False by (simp add: field_simps)
      then have "1 / 111320 \<le> \<bar>q / k\<bar>" using q(2) by simp
      then show ?thesis
        using False by (simp add: step q(1) coarse_step_def js_fin_def)
    qed
  qed
qed

text \<open>An extent of at most 360 degrees over such a step gives at most \<open>2^53\<close> cells.\<close>

lemma count_bounded:
  assumes "\<bar>d\<bar> \<le> 360" and "coarse_step v"
  shows "\<exists>a. js_ceil (js_div (Fin d) v) = Fin a \<and> a \<le> 2 ^ 53"
proof (cases v)
  case (Fin L)
  then have L: "1 / 111320 \<le> \<bar>L\<bar>" using assms(2) by (simp add: coarse_step_def)
  then have nz: "L \<noteq> 0" by auto
  have "360 * 111320 * (1 / 111320) \<le> 360 * 111320 * \<bar>L\<bar>"
    by (rule mult_left_mono) (use L in simp_all)
  then have "\<bar>d\<bar> \<le> 360 * 111320 * \<bar>L\<bar>"
    using assms(1) by simp
  then have "\<bar>d\<bar> / \<bar>L\<bar> \<le> 360 * 111320"
    using nz by (simp add: pos_divide_le_eq)
  then have q: "\<bar>d / L\<bar> \<le> 40075200" by simp
  moreover have "(40075200 :: real) \<le> 2 ^ 64" by simp
  ultimately have "\<bar>d / L\<bar> \<le> 2 ^ 64" by (rule order_trans)
  then have "js_fin (d / L) = Fin (d / L)" by (rule js_fin_small)
  then have "js_div (Fin d) (Fin L) = Fin (d / L)"
    using nz by simp
  moreover have "real_of_int \<lceil>d / L\<rceil> \<le> d / L + 1"
    by (rule of_int_ceiling_le_add_one)
  then have "real_of_int \<lceil>d / L\<rceil> \<le> 40075201" using q by linarith
  then have "real_of_int \<lceil>d / L\<rceil> \<le> 2 ^ 53" by simp
  ultimately show ?thesis using Fin by simp
next
  case PInf
  then show ?thesis by simp
next
  case NInf
  then show ?thesis by simp
next
  case NaN
  with assms(2) show ?thesis by (simp add: coarse_step_def)
qed

lemma diff_fin: "\<bar>a\<bar> \<le> 180 \<Longrightarrow> \<bar>b\<bar> \<le> 180 \<Longrightarrow> js_sub (Fin a) (Fin b) = Fin (a - b)"
  by (simp add: js_sub_def js_fin_small)

lemma counts_bounded:
  assumes "1 / 10000 \<le> g" and "\<bar>s\<bar> \<le> 90" "\<bar>n\<bar> \<le> 90" and "\<bar>w\<bar> \<le> 180" "\<bar>e\<bar> \<le> 180"
  shows "\<exists>a b. numLatCells ((Fin s, Fin w), (Fin n, Fin e)) (Fin g) = Fin a \<and> a \<le> 2 ^ 53 \<and>
               numLngCells ((Fin s, Fin w), (Fin n, Fin e)) (Fin g) = Fin b \<and> b \<le> 2 ^ 53"
proof -
  have lat: "latDiff ((Fin s, Fin w), (Fin n, Fin e)) = Fin (n - s)" "\<bar>n - s\<bar> \<le> 360"
    using assms(2,3) by (simp_all add: latDiff_def diff_fin)
  have lng: "lngDiff ((Fin s, Fin w), (Fin n, Fin e)) = Fin (e - w)" "\<bar>e - w\<bar> \<le> 360"
    using assms(4,5) by (simp_all add: lngDiff_def diff_fin)
  obtain a where "js_ceil (js_div (Fin (n - s)) (latStep ((Fin s, Fin w), (Fin n, Fin e)) (Fin g))) = Fin a"
      "a \<le> 2 ^ 53"
    using count_bounded [OF lat(2) latStep_coarse [OF assms(1,4)]] by blast
  moreover obtain b where "js_ceil (js_div (Fin (e - w)) (lngStep (Fin g))) = Fin b" "b \<le> 2 ^ 53"
    using count_bounded [OF lng(2) lngStep_coarse [OF assms(1)]] by blast
  ultimately show ?thesis
    by (simp add: numLatCells_def numLngCells_def lat(1) lng(1))
qed

lemma numLatCells_negative_area: "g < 0 \<Longrightarrow> numLatCells bounds (Fin g) = NaN"
proof -
  assume "g < 0"
  then have "gridSizeMeters (Fin g) = NaN"
    using overflow_threshold_large by (simp add: gridSizeMeters_def js_fin_def)
  then show ?thesis
    by (cases "latDiff bounds") (simp_all add: numLatCells_def latStep_def)
qed

lemma zero_over_step: "\<not> js_lt (Fin 0) (js_ceil (js_div (Fin 0) v))"
  by (cases v) (simp_all add: inf_signed_def js_fin_zero)

lemma numLatCells_degenerate:
  "\<not> js_lt (Fin 0) (numLatCells ((Fin s, Fin w), (Fin s, Fin e)) (Fin g))"
  by (simp add: numLatCells_def latDiff_def js_sub_def js_fin_zero zero_over_step)

lemma numLngCells_degenerate:
  assumes "1 / 10000 \<le> g"
  shows "numLngCells ((Fin s, Fin w), (Fin n, Fin w)) (Fin g) = Fin 0"
proof -
  have "coarse_step (lngStep (Fin g))" using assms by (rule lngStep_coarse)
  then have "js_ceil (js_div (Fin 0) (lngStep (Fin g))) = Fin 0"
    by (cases "lngStep (Fin g)") (auto simp add: coarse_step_def js_fin_zero)
  then show ?thesis
    by (simp add: numLngCells_def lngDiff_def js_sub_def js_fin_zero)
qed

section \<open>Results of the grid generator\<close>

lemma generateGrid_no_area:
  assumes "1 / 10000 \<le> g" and "\<bar>s\<bar> \<le> 90" "\<bar>n\<bar> \<le> 90" and "\<bar>w\<bar> \<le> 180" "\<bar>e\<bar> \<le> 180"
  shows "generateGrid ((Fin s, Fin w), (Fin n, Fin e)) (Fin g) None = Some ([], [])"
proof -
  obtain a b where a: "numLatCells ((Fin s, Fin w), (Fin n, Fin e)) (Fin g) = Fin a" "a \<le> 2 ^ 53"
    and b: "numLngCells ((Fin s, Fin w), (Fin n, Fin e)) (Fin g) = Fin b" "b \<le> 2 ^ 53"
    using counts_bounded [OF assms] by blast
  show ?thesis
    by (simp add: generateGrid_def lat_loop_finite [OF a b] fold_fold_cell_step_None)
qed

lemma generateGrid_invalid:
  assumes "g < 0 \<or> s = n \<or> (w = e \<and> 1 / 10000 \<le> g \<and> \<bar>s\<bar> \<le> 90 \<and> \<bar>n\<bar> \<le> 90 \<and> \<bar>w\<bar> \<le> 180)"
  shows "generateGrid ((Fin s, Fin w), (Fin n, Fin e)) (Fin g) area = Some ([], [])"
proof -
  consider "g < 0" | "s = n"
    | "w = e" "1 / 10000 \<le> g" "\<bar>s\<bar> \<le> 90" "\<bar>n\<bar> \<le> 90" "\<bar>w\<bar> \<le> 180"
    using assms by blast
  then show ?thesis
  proof cases
    case 1
    then show ?thesis
      by (simp add: generateGrid_def lat_loop_not_entered numLatCells_negative_area)
  next
    case 2
    then show ?thesis
      by (simp add: generateGrid_def lat_loop_not_entered numLatCells_degenerate)
  next
    case 3
    have e: "\<bar>e\<bar> \<le> 180" using 3(1,5) by simp
    obtain a b where a: "numLatCells ((Fin s, Fin w), (Fin n, Fin e)) (Fin g) = Fin a" "a \<le> 2 ^ 53"
      using counts_bounded [OF 3(2,3,4,5) e] by blast
    have b: "numLngCells ((Fin s, Fin w), (Fin n, Fin e)) (Fin g) = Fin 0"
      using 3(1) numLngCells_degenerate [OF 3(2)] by simp
    have c: "(0 :: real) \<le> 2 ^ 53" by simp
    show ?thesis
      by (simp add: generateGrid_def lat_loop_finite [OF a b c] fold_nothing)
  qed
qed

text \<open>
  A cell area so small that a row has more than \<open>2^53\<close> columns: the column counter
  stops growing at \<open>2^53\<close> and the call never returns. For the box \<open>[[0,0],[1,1]]\<close> at
  \<open>10^-30\<close> ha a row has \<open>1.1132 * 10^18\<close> columns.
\<close>

lemma sqrt_tiny: "sqrt (1 / 10 ^ 30 * 10000) = 1 / 10 ^ 13"
  by (rule real_sqrt_unique) (simp_all add: power2_eq_square)

lemma generateGrid_tiny_area_never_returns:
  "generateGrid ((Fin 0, Fin 0), (Fin 1, Fin 1)) (Fin (1 / 10 ^ 30)) area = None"
proof -
  define t :: real where "t = 1 / 10 ^ 30"
  have g: "gridSizeMeters (Fin t) = Fin (1 / 10 ^ 13)"
    using sqrt_tiny by (simp add: t_def gridSizeMeters_def js_fin_small)
  have a: "numLatCells ((Fin 0, Fin 0), (Fin 1, Fin 1)) (Fin t) = Fin 1113200000000000000"
    by (simp add: numLatCells_def latDiff_def js_sub_def latStep_def g js_PI_def js_fin_small)
  have b: "numLngCells ((Fin 0, Fin 0), (Fin 1, Fin 1)) (Fin t) = Fin 1113200000000000000"
    by (simp add: numLngCells_def lngDiff_def js_sub_def lngStep_def g js_fin_small)
  have "lat_loop ((Fin 0, Fin 0), (Fin 1, Fin 1)) (Fin t) area 0 st = None" for st
    by (rule lat_loop_never_returns) (simp_all add: a b beyond_counter_def)
  then have "generateGrid ((Fin 0, Fin 0), (Fin 1, Fin 1)) (Fin t) area = None"
    by (simp add: generateGrid_def)
  then show ?thesis
    by (simp only: t_def)
qed

lemma route_invalid:
  assumes "g \<le> 0 \<or> s = n \<or> (w = e \<and> 1 / 10000 \<le> g \<and> \<bar>s\<bar> \<le> 90 \<and> \<bar>n\<bar> \<le> 90 \<and> \<bar>w\<bar> \<le> 180)"
  shows "generate_grid_route (Some ((Fin s, Fin w), (Fin n, Fin e))) (Some (Fin g)) area =
           Some (if g = 0 then Status400 else Success [] [])"
proof (cases "g = 0")
  case True
  then show ?thesis by (simp add: generate_grid_route_def)
next
  case False
  then have "g < 0 \<or> s = n \<or> (w = e \<and> 1 / 10000 \<le> g \<and> \<bar>s\<bar> \<le> 90 \<and> \<bar>n\<bar> \<le> 90 \<and> \<bar>w\<bar> \<le> 180)"
    using assms by linarith
  then have "generateGrid ((Fin s, Fin w), (Fin n, Fin e)) (Fin g) area = Some ([], [])"
    by (rule generateGrid_invalid)
  then show ?thesis
    using False by (simp add: generate_grid_route_def)
qed

text \<open>
  C1. Claim: without a boundary polygon every enumerated cell is retained, 12544 cells for
  the box \<open>[[-10,-10],[-9,-9]]\<close> at 100 ha. In the code a missing area polygon makes the
  retention test \<^verbatim>\<open>areaPolygon && intersectsPolygon(...)\<close> false for every cell: at that
  very input the generator returns no cell and no point.
\<close>

theorem C1_counterexample:
  "generateGrid ((Fin (- 10), Fin (- 10)), (Fin (- 9), Fin (- 9))) (Fin 100) None = Some ([], [])"
  by (rule generateGrid_no_area) simp_all

text \<open>
  C1, as the code has it: for every bounding box of geographic coordinates (latitudes
  within 90 degrees, longitudes within 180 degrees) and every cell area of at least one
  square metre (\<open>10^-4\<close> ha), a call without a boundary polygon returns, and both returned
  lists are empty. Under these bounds neither cell count exceeds \<open>360 * 111320 + 1\<close>, far
  from the \<open>2^53\<close> at which the counters stop, whatever the rounding of the steps.
\<close>

theorem C1_no_boundary_retains_nothing:
  assumes "1 / 10000 \<le> g" and "\<bar>s\<bar> \<le> 90" and "\<bar>n\<bar> \<le> 90" and "\<bar>w\<bar> \<le> 180" and "\<bar>e\<bar> \<le> 180"
  shows "generateGrid ((Fin s, Fin w), (Fin n, Fin e)) (Fin g) None = Some ([], [])"
  using assms by (rule generateGrid_no_area)

theorem C1_no_boundary_retains_nothing_witness:
  "(1 / 10000 :: real) \<le> 100 \<and> \<bar>- 10 :: real\<bar> \<le> 90 \<and> \<bar>- 9 :: real\<bar> \<le> 90 \<and>
   \<bar>- 10 :: real\<bar> \<le> 180 \<and> \<bar>- 9 :: real\<bar> \<le> 180 \<and>
   generateGrid ((Fin (- 10), Fin (- 10)), (Fin (- 9), Fin (- 9))) (Fin 100) None = Some ([], [])"
  using C1_no_boundary_retains_nothing [of 100 "- 10" "- 9" "- 10" "- 9"] by simp

text \<open>
  C2. Claim: a cell area \<open>\<le> 0\<close> or a degenerate bounding box ends in an
  InvalidGridParameters error and never in a silently returned grid. The code has no such
  check: a negative cell area (the square root is \<^verbatim>\<open>NaN\<close>, no loop is entered) and a box
  of height zero are both answered with success and an empty grid.
\<close>

theorem C2_counterexample:
  "generate_grid_route (Some ((Fin 0, Fin 0), (Fin 1, Fin 1))) (Some (Fin (- 1)))
     (Some (bbox_ring ((Fin 0, Fin 0), (Fin 1, Fin 1)))) = Some (Success [] []) \<and>
   generate_grid_route (Some ((Fin 0, Fin 0), (Fin 0, Fin 1))) (Some (Fin 100))
     (Some (bbox_ring ((Fin 0, Fin 0), (Fin 0, Fin 1)))) = Some (Success [] [])"
  by (simp add: generate_grid_route_def generateGrid_invalid)

text \<open>
  C2, as the code has it: the route returns on a request whose cell area is \<open>\<le> 0\<close>,
  or whose bounding box has height zero, or whose bounding box has width zero and
  geographic coordinates with a cell area of at least one square metre (\<open>10^-4\<close> ha). A
  cell area of exactly zero is falsy and is answered with status 400 before the generator
  is called; every other such request is answered with success and two empty lists. (A box
  of width zero still has its rows counted through; the bounds keep their number below
  \<open>2^53\<close>.)
\<close>

theorem C2_invalid_parameters_outcome:
  assumes "g \<le> 0 \<or> s = n \<or>
           (w = e \<and> 1 / 10000 \<le> g \<and> \<bar>s\<bar> \<le> 90 \<and> \<bar>n\<bar> \<le> 90 \<and> \<bar>w\<bar> \<le> 180)"
  shows "generate_grid_route (Some ((Fin s, Fin w), (Fin n, Fin e))) (Some (Fin g)) area =
           Some (if g = 0 then Status400 else Success [] [])"
  using assms by (rule route_invalid)

theorem C2_invalid_parameters_outcome_witness:
  "((100::real) \<le> 0 \<or> (0::real) = 1 \<or>
      ((5::real) = 5 \<and> (1 / 10000 :: real) \<le> 100 \<and> \<bar>0 :: real\<bar> \<le> 90 \<and> \<bar>1 :: real\<bar> \<le> 90 \<and>
       \<bar>5 :: real\<bar> \<le> 180)) \<and>
   generate_grid_route (Some ((Fin 0, Fin 5), (Fin 1, Fin 5))) (Some (Fin 100))
     (Some (bbox_ring ((Fin 0, Fin 5), (Fin 1, Fin 5)))) = Some (Success [] [])"
  using C2_invalid_parameters_outcome [of 100 0 1 5 5 "Some (bbox_ring ((Fin 0, Fin 5), (Fin 1, Fin 5)))"]
  by simp

text \<open>
  C5. Claim: the latitude step divides by the cosine of the south-west latitude, so two
  boxes with the same south-west latitude and the same extents get the same steps and
  counts whatever their longitudes. The code takes the cosine of \<^verbatim>\<open>bounds[0][1]\<close>, the
  south-west longitude: the boxes \<open>[[0,0],[1,1]]\<close> and \<open>[[0,60],[1,61]]\<close> at 100 ha differ
  in the latitude step and in the number of rows.
\<close>

theorem C5_latStep_depends_on_longitude:
  "latStep ((Fin 0, Fin 0), (Fin 1, Fin 1)) (Fin 100) = Fin (1000 / 111320) \<and>
   latStep ((Fin 0, Fin 60), (Fin 1, Fin 61)) (Fin 100) = Fin (2000 / 111320) \<and>
   numLatCells ((Fin 0, Fin 0), (Fin 1, Fin 1)) (Fin 100) = Fin 112 \<and>
   numLatCells ((Fin 0, Fin 60), (Fin 1, Fin 61)) (Fin 100) = Fin 56"
proof -
  have g: "gridSizeMeters (Fin 100) = Fin 1000"
    by (simp add: gridSizeMeters_def js_fin_small sqrt_million)
  have k: "js_mul (Fin 111320) (js_cos (js_div (js_mul (Fin 60) js_PI) (Fin 180))) = Fin 55660"
    by (simp add: cos_factor cos_60)
  have a: "latStep ((Fin 0, Fin 0), (Fin 1, Fin 1)) (Fin 100) = Fin (1000 / 111320)"
    by (simp add: latStep_def g js_PI_def js_fin_small)
  have b: "latStep ((Fin 0, Fin 60), (Fin 1, Fin 61)) (Fin 100) = Fin (2000 / 111320)"
    by (simp add: latStep_def g k js_fin_small)
  have c: "numLatCells ((Fin 0, Fin 0), (Fin 1, Fin 1)) (Fin 100) = Fin 112"
    by (simp add: numLatCells_def latDiff_def js_sub_def a js_fin_small)
  have d: "numLatCells ((Fin 0, Fin 60), (Fin 1, Fin 61)) (Fin 100) = Fin 56"
    by (simp add: numLatCells_def latDiff_def js_sub_def b js_fin_small)
  from a b c d show ?thesis by simp
qed

text \<open>
  C6. Claim: with the bounding box itself as the boundary ring, the number of retained
  cells is \<open>numLatCells * numLngCells\<close>, for every bounding box. For the box
  \<open>[[0,-180],[1,-179]]\<close> at 100 ha the cosine of the south-west longitude is \<open>-1\<close>, the
  latitude step is negative, \<open>numLatCells\<close> is \<open>-111\<close> and \<open>numLngCells\<close> is \<open>112\<close>: no cell
  is enumerated and none is retained.
\<close>

theorem C6_bbox_boundary_negative_row_count:
  "numLatCells ((Fin 0, Fin (- 180)), (Fin 1, Fin (- 179))) (Fin 100) = Fin (- 111) \<and>
   numLngCells ((Fin 0, Fin (- 180)), (Fin 1, Fin (- 179))) (Fin 100) = Fin 112 \<and>
   generateGrid ((Fin 0, Fin (- 180)), (Fin 1, Fin (- 179))) (Fin 100)
     (Some (bbox_ring ((Fin 0, Fin (- 180)), (Fin 1, Fin (- 179))))) = Some ([], [])"
proof -
  have g: "gridSizeMeters (Fin 100) = Fin 1000"
    by (simp add: gridSizeMeters_def js_fin_small sqrt_million)
  have k: "js_mul (Fin 111320) (js_cos (js_div (js_mul (Fin (- 180)) js_PI) (Fin 180))) = Fin (- 111320)"
    by (simp add: cos_factor)
  have a: "latStep ((Fin 0, Fin (- 180)), (Fin 1, Fin (- 179))) (Fin 100) = Fin (- (1000 / 111320))"
    by (simp add: latStep_def g k js_fin_small)
  have b: "numLatCells ((Fin 0, Fin (- 180)), (Fin 1, Fin (- 179))) (Fin 100) = Fin (- 111)"
    by (simp add: numLatCells_def latDiff_def js_sub_def a js_fin_small)
  have c: "numLngCells ((Fin 0, Fin (- 180)), (Fin 1, Fin (- 179))) (Fin 100) = Fin 112"
    by (simp add: numLngCells_def lngDiff_def js_sub_def lngStep_def g js_fin_small)
  have d: "generateGrid ((Fin 0, Fin (- 180)), (Fin 1, Fin (- 179))) (Fin 100) area = Some ([], [])"
    for area
    by (simp add: generateGrid_def lat_loop_not_entered b)
  from b c d show ?thesis by simp
qed

section \<open>Point in polygon\<close>

lemma pip_loop_step:
  "i < length polygon \<Longrightarrow>
     pip_loop x y polygon i j inside =
       pip_loop x y polygon (Suc i) i (inside \<noteq> pip_crosses x y (polygon ! i) (polygon ! j))"
  by (subst pip_loop.simps) auto

lemma pip_loop_done: "\<not> i < length polygon \<Longrightarrow> pip_loop x y polygon i j inside = inside"
  by (subst pip_loop.simps) simp

text \<open>On a ring of five vertices the loop visits the edges \<open>(0,4), (1,0), (2,1), (3,2), (4,3)\<close>.\<close>

lemma pointInPolygon_five:
  "pointInPolygon (x, y) [p0, p1, p2, p3, p4] =
     (((((False \<noteq> pip_crosses x y p0 p4) \<noteq> pip_crosses x y p1 p0) \<noteq> pip_crosses x y p2 p1)
        \<noteq> pip_crosses x y p3 p2) \<noteq> pip_crosses x y p4 p3)"
  by (simp add: pointInPolygon_def pip_loop_step pip_loop_done)

text \<open>
  A horizontal edge is never crossed: the two comparisons agree and the right operand of
  \<^verbatim>\<open>&&\<close> is not evaluated.
\<close>

lemma pip_crosses_horizontal:
  "pip_crosses (Fin x) (Fin y) (Fin xi, Fin yi) (Fin xj, Fin yi) = False"
  by (simp add: pip_crosses_def Let_def)

text \<open>
  A vertical edge: \<^verbatim>\<open>xj - xi\<close> is zero, and as long as \<^verbatim>\<open>y - yi\<close> and \<^verbatim>\<open>yj - yi\<close> do not
  overflow the intersection abscissa is \<^verbatim>\<open>xi\<close> itself.
\<close>

lemma pip_crosses_vertical:
  assumes "\<bar>xi\<bar> < overflow_threshold" and "\<bar>y - yi\<bar> < overflow_threshold"
    and "\<bar>yj - yi\<bar> < overflow_threshold"
  shows "pip_crosses (Fin x) (Fin y) (Fin xi, Fin yi) (Fin xi, Fin yj) =
           (((y < yi) \<noteq> (y < yj)) \<and> x < xi)"
proof -
  have a: "js_sub (Fin xi) (Fin xi) = Fin 0"
    by (simp add: js_sub_def js_fin_zero)
  have b: "js_sub (Fin y) (Fin yi) = Fin (y - yi)"
    using assms(2) by (simp add: js_sub_def js_fin_eq)
  have c: "js_sub (Fin yj) (Fin yi) = Fin (yj - yi)"
    using assms(3) by (simp add: js_sub_def js_fin_eq)
  have d: "js_mul (Fin 0) (Fin (y - yi)) = Fin 0"
    by (simp add: js_fin_zero)
  have e: "yj \<noteq> yi \<Longrightarrow> js_div (Fin 0) (Fin (yj - yi)) = Fin 0"
    by (simp add: js_fin_zero)
  have f: "js_add (Fin 0) (Fin xi) = Fin xi"
    using assms(1) by (simp add: js_fin_eq)
  show ?thesis
  proof (cases "yj = yi")
    case True
    then show ?thesis by (simp add: pip_crosses_def Let_def)
  next
    case False
    show ?thesis
      by (simp add: pip_crosses_def Let_def js_gt_def a b c d e [OF False] f del: js_add.simps js_mul.simps js_div.simps)
  qed
qed

text \<open>
  C10. Claim: for every axis-aligned closed rectangle ring a point on the bottom edge
  \<open>y = y0\<close> with \<open>x0 \<le> x < x1\<close> is inside. On the ring
  \<open>[[0,-H],[1,-H],[1,H],[0,H],[0,-H]]\<close> with \<open>H = 2^1023\<close> the point \<open>[0.5,-H]\<close> is on the
  bottom edge and is reported outside: on the edge \<open>x = 1\<close> the difference \<^verbatim>\<open>y - yi\<close> is
  \<open>-2^1024\<close>, which overflows to \<^verbatim>\<open>-Infinity\<close>, the product \<^verbatim>\<open>0 * -Infinity\<close> is \<^verbatim>\<open>NaN\<close>, and
  the comparison with \<^verbatim>\<open>NaN\<close> fails.
\<close>

theorem C10_counterexample:
  "[(Fin 0, Fin (- (2 ^ 1023))), (Fin 1, Fin (- (2 ^ 1023))), (Fin 1, Fin (2 ^ 1023)),
    (Fin 0, Fin (2 ^ 1023)), (Fin 0, Fin (- (2 ^ 1023)))]
     \<in> set (rectangle_rings 0 (- (2 ^ 1023)) 1 (2 ^ 1023)) \<and>
   \<not> pointInPolygon (Fin (1 / 2), Fin (- (2 ^ 1023)))
     [(Fin 0, Fin (- (2 ^ 1023))), (Fin 1, Fin (- (2 ^ 1023))), (Fin 1, Fin (2 ^ 1023)),
      (Fin 0, Fin (2 ^ 1023)), (Fin 0, Fin (- (2 ^ 1023)))]"
proof -
  define H :: real where "H = 2 ^ 1023"
  have H: "0 < H" by (simp add: H_def)
  have over: "js_fin (- (2 * H)) = NInf"
    by (simp add: js_fin_def overflow_threshold_def H_def)
  have e2: "\<not> pip_crosses (Fin (1 / 2)) (Fin (- H)) (Fin 1, Fin H) (Fin 1, Fin (- H))"
    by (simp add: pip_crosses_def Let_def js_gt_def js_sub_def over js_fin_zero inf_signed_def)
  have zero: "js_fin (2 * H) = PInf"
    by (simp add: js_fin_def overflow_threshold_def H_def)
  have e4: "\<not> pip_crosses (Fin (1 / 2)) (Fin (- H)) (Fin 0, Fin (- H)) (Fin 0, Fin H)"
    by (simp add: pip_crosses_def Let_def js_gt_def js_sub_def zero js_fin_zero)
  have "\<not> pointInPolygon (Fin (1 / 2), Fin (- H))
     [(Fin 0, Fin (- H)), (Fin 1, Fin (- H)), (Fin 1, Fin H), (Fin 0, Fin H), (Fin 0, Fin (- H))]"
    by (simp add: pointInPolygon_five pip_crosses_horizontal e2 e4)
  moreover have "[(Fin 0, Fin (- H)), (Fin 1, Fin (- H)), (Fin 1, Fin H), (Fin 0, Fin H), (Fin 0, Fin (- H))]
     \<in> set (rectangle_rings 0 (- H) 1 H)"
    by (simp add: rectangle_rings_def Let_def)
  ultimately show ?thesis
    by (simp only: H_def) simp
qed

text \<open>
  C10, as the code has it: for every closed ring of an axis-aligned rectangle
  (\<open>x0 < x1\<close>, \<open>y0 < y1\<close>, both orientations, any starting corner) whose height \<open>y1 - y0\<close>
  does not overflow, the boundary is classified half-open: a point on the bottom edge
  \<open>y = y0\<close> with \<open>x0 \<le> x < x1\<close> is inside, and every point with \<open>y = y1\<close> is outside.
  The abscissas are binary64 numbers, below the overflow threshold in magnitude.
\<close>

theorem C10_rectangle_half_open:
  assumes "x0 < x1" and "y0 < y1" and "y1 - y0 < overflow_threshold"
    and "\<bar>x0\<bar> < overflow_threshold" and "\<bar>x1\<bar> < overflow_threshold"
    and "r \<in> set (rectangle_rings x0 y0 x1 y1)"
  shows "(x0 \<le> x \<and> x < x1 \<longrightarrow> pointInPolygon (Fin x, Fin y0) r) \<and>
         \<not> pointInPolygon (Fin x, Fin y1) r"
proof -
  have d: "\<bar>a - b\<bar> < overflow_threshold" if "a \<in> {y0, y1}" "b \<in> {y0, y1}" for a b
    using that assms(2,3) overflow_threshold_pos by auto
  have v: "pip_crosses (Fin x) (Fin y) (Fin xi, Fin yi) (Fin xi, Fin yj) =
             (((y < yi) \<noteq> (y < yj)) \<and> x < xi)"
    if "xi \<in> {x0, x1}" "y \<in> {y0, y1}" "yi \<in> {y0, y1}" "yj \<in> {y0, y1}" for xi y yi yj
  proof (rule pip_crosses_vertical)
    show "\<bar>xi\<bar> < overflow_threshold" using that(1) assms(4,5) by auto
    show "\<bar>y - yi\<bar> < overflow_threshold" using that(2,3) by (rule d)
    show "\<bar>yj - yi\<bar> < overflow_threshold" using that(4,3) by (rule d)
  qed
  have bottom: "pointInPolygon (Fin x, Fin y0) r" if "x0 \<le> x" "x < x1"
    using assms(1,2,6) that
    by (auto simp add: rectangle_rings_def Let_def pointInPolygon_five pip_crosses_horizontal v)
  have top: "\<not> pointInPolygon (Fin x, Fin y1) r"
    using assms(1,2,6)
    by (auto simp add: rectangle_rings_def Let_def pointInPolygon_five pip_crosses_horizontal v)
  from bottom top show ?thesis by blast
qed

theorem C10_rectangle_half_open_witness:
  "(0::real) < 2 \<and> (0::real) < 1 \<and> (1::real) - 0 < overflow_threshold \<and>
   \<bar>0::real\<bar> < overflow_threshold \<and> \<bar>2::real\<bar> < overflow_threshold \<and>
   [(Fin 0, Fin 0), (Fin 2, Fin 0), (Fin 2, Fin 1), (Fin 0, Fin 1), (Fin 0, Fin 0)]
     \<in> set (rectangle_rings 0 0 2 1) \<and>
   (0::real) \<le> 1 \<and> (1::real) < 2 \<and>
   pointInPolygon (Fin 1, Fin 0)
     [(Fin 0, Fin 0), (Fin 2, Fin 0), (Fin 2, Fin 1), (Fin 0, Fin 1), (Fin 0, Fin 0)] \<and>
   \<not> pointInPolygon (Fin 1, Fin 1)
     [(Fin 0, Fin 0), (Fin 2, Fin 0), (Fin 2, Fin 1), (Fin 0, Fin 1), (Fin 0, Fin 0)]"
proof -
  have r: "[(Fin 0, Fin 0), (Fin 2, Fin 0), (Fin 2, Fin 1), (Fin 0, Fin 1), (Fin 0, Fin 0)]
      \<in> set (rectangle_rings 0 0 2 1)"
    by (simp add: rectangle_rings_def Let_def)
  have t: "(1::real) - 0 < overflow_threshold" "\<bar>0::real\<bar> < overflow_threshold"
    "\<bar>2::real\<bar> < overflow_threshold"
    by (simp_all add: overflow_threshold_def)
  show ?thesis
    using C10_rectangle_half_open [of 0 2 0 1 _ 1, OF _ _ t r] r t by simp
qed

section \<open>Evaluating the encoders\<close>

lemma replicate_numeral: "replicate (numeral k) x = x # replicate (pred_numeral k) x"
  by (simp add: numeral_eq_Suc)

lemma nat_digits_numeral:
  "nat_digits (numeral k) =
     (if numeral k < (10::nat) then [digit_char (numeral k)]
      else nat_digits (numeral k div 10) @ [digit_char (numeral k mod 10)])"
  by (rule nat_digits.simps)

lemma nat_digits_one: "nat_digits (Suc 0) = ''1''"
  by (subst nat_digits.simps) (simp add: digit_char_def)

lemma double_val_lng: "double_val 0xC04ABC2C3C9EECC0 = Fin (- (117581993376691 / 2199023255552))"
proof -
  have "bit (0xC04ABC2C3C9EECC0 :: 64 word) 63" by simp
  moreover have "unat (take_bit 11 (drop_bit 52 (0xC04ABC2C3C9EECC0 :: 64 word))) = 1028"
    by (simp add: drop_bit_eq_div take_bit_eq_mod)
  moreover have "unat (take_bit 52 (0xC04ABC2C3C9EECC0 :: 64 word)) = 3021647948737728"
    by (simp add: take_bit_eq_mod)
  ultimately show ?thesis
    by (simp only: double_val_def) (simp add: ieee_value_def)
qed

lemma double_val_lat: "double_val 0xC03BA1D14E3BCD36 = Fin (- (3888872351983259 / 140737488355328))"
proof -
  have "bit (0xC03BA1D14E3BCD36 :: 64 word) 63" by simp
  moreover have "unat (take_bit 11 (drop_bit 52 (0xC03BA1D14E3BCD36 :: 64 word))) = 1027"
    by (simp add: drop_bit_eq_div take_bit_eq_mod)
  moreover have "unat (take_bit 52 (0xC03BA1D14E3BCD36 :: 64 word)) = 3274145076596022"
    by (simp add: take_bit_eq_mod)
  ultimately show ?thesis
    by (simp only: double_val_def) (simp add: ieee_value_def)
qed

text \<open>
  The two bit patterns are the doubles nearest to \<open>-53.4701\<close> and \<open>-27.6321\<close>: each lies
  within half a unit in the last place (\<open>2^-48\<close> and \<open>2^-49\<close>) of its literal.
\<close>

lemma point_feature_nearest:
  "\<bar>- (117581993376691 / 2199023255552) - (- 53.4701 :: real)\<bar> < 1 / 2 ^ 48 \<and>
   \<bar>- (3888872351983259 / 140737488355328) - (- 27.6321 :: real)\<bar> < 1 / 2 ^ 49"
  by simp

lemma toFixed6_lng: "toFixed6 (Fin (- (117581993376691 / 2199023255552))) = ''-53.470100''"
  by (simp add: toFixed6_def nat_digits_numeral digit_char_def)

lemma toFixed6_lat: "toFixed6 (Fin (- (3888872351983259 / 140737488355328))) = ''-27.632100''"
  by (simp add: toFixed6_def nat_digits_numeral digit_char_def)

text \<open>A polygon's record never fits: the fifth write needs bytes 28 to 35 of 28.\<close>

lemma shp_recordBuffer_polygon:
  "geometry f = Polygon rings \<Longrightarrow>
     shp_recordBuffer f minX minY maxX maxY = Inl (ERR_OUT_OF_RANGE ''offset'' 28)"
  by (simp add: shp_recordBuffer_def and_then_def writeInt32LE_def writeDoubleLE_def
      write_checked_def bounds_error_def put_bytes_def alloc_def le_bytes32_def le_bytes64_def)

text \<open>A one-byte write at \<open>buffer.length\<close> is always out of range.\<close>

lemma writeUInt8_at_end:
  "writeUInt8 v (length buffer) buffer =
     Inl (if v < 0 \<or> 255 < v then ERR_OUT_OF_RANGE ''value'' v
          else bounds_error (length buffer) 1 buffer)"
  by (simp add: writeUInt8_def write_checked_def)

lemma dbf_fields_length:
  "dbf_fields fields buffer = Inr b \<Longrightarrow> length b = length buffer + 128"
  by (auto simp add: fields_def dbf_fieldDesc_def and_then_def write_ascii_def writeUInt8_def
      writeUInt32LE_def write_checked_def put_bytes_def alloc_def le_bytes32_def padEnd_def
      split: if_splits sum.splits)

lemma dbf_fields_succeeds: "\<exists>b. dbf_fields fields buffer = Inr b"
  by (simp add: fields_def dbf_fieldDesc_def and_then_def write_ascii_def writeUInt8_def
      writeUInt32LE_def write_checked_def put_bytes_def alloc_def le_bytes32_def padEnd_def)

lemma dbf_header_bytes:
  assumes "1900 \<le> getFullYear today" "getFullYear today \<le> 2155"
    and "0 \<le> getMonth today" "getMonth today \<le> 11"
    and "1 \<le> getDate today" "getDate today \<le> 31"
    and "n < 2 ^ 32"
  shows "dbf_header today n =
           Inr ([3, word_of_int (getFullYear today - 1900), word_of_int (getMonth today + 1),
                 word_of_int (getDate today)]
                @ le_bytes32 (word_of_int (int n)) @ [161, 0, 32, 0] @ replicate 20 0)"
proof -
  have n: "int n \<le> 4294967295" using assms(7) by simp
  show ?thesis
    using assms(1-6) n
    by (simp add: dbf_header_def writeUInt8_def writeUInt32LE_def writeUInt16LE_def
        write_checked_def put_bytes_def alloc_def le_bytes32_def le_bytes16_def replicate_numeral)
qed

text \<open>
  The attribute encoder never returns a buffer: whatever precedes, the field terminator
  is written at \<open>buffer.length\<close>.
\<close>

lemma createDBFBuffer_raises: "\<exists>e. createDBFBuffer today features = Inl e"
proof (cases "dbf_header today (length features)")
  case (Inl e)
  then show ?thesis by (simp add: createDBFBuffer_def and_then_def)
next
  case (Inr h)
  obtain b where "dbf_fields fields h = Inr b" using dbf_fields_succeeds by blast
  with Inr show ?thesis
    by (simp add: createDBFBuffer_def and_then_def writeUInt8_at_end)
qed

text \<open>On any date from 1900 to 2155 the exception is the one of the field terminator.\<close>

lemma createDBFBuffer_terminator_out_of_range:
  assumes "1900 \<le> getFullYear today" "getFullYear today \<le> 2155"
    and "0 \<le> getMonth today" "getMonth today \<le> 11"
    and "1 \<le> getDate today" "getDate today \<le> 31"
    and "length features < 2 ^ 32"
  shows "createDBFBuffer today features = Inl (ERR_OUT_OF_RANGE ''offset'' 160)"
proof -
  obtain h where h: "dbf_header today (length features) = Inr h" and lh: "length h = 32"
    using dbf_header_bytes [OF assms] by (simp add: le_bytes32_def)
  obtain b where b: "dbf_fields fields h = Inr b"
    using dbf_fields_succeeds by blast
  have lb: "length b = 160"
    using dbf_fields_length [OF b] lh by simp
  then have "b \<noteq> []" by auto
  with lb show ?thesis
    by (simp add: createDBFBuffer_def and_then_def h b writeUInt8_at_end bounds_error_def)
qed

text \<open>
  C3. Claim: each attribute record holds ID, GRIDSIZE, LATITUDE and LONGITUDE in four
  disjoint byte ranges of widths 10, 10, 15 and 15 after the deletion flag, and the
  latitude text is not overwritten by the longitude text. The record of the point feature
  \<open>{id: 1, gridSize: 2, lat: -27.6321, lng: -53.4701}\<close> is 32 bytes long: the flag, the two
  10-byte fields, and in bytes 21 to 31 the first eleven characters of the padded longitude
  text, written over the latitude text at the same offset.
\<close>

theorem C3_longitude_overwrites_latitude:
  "dbf_record point_feature = Inr (map of_char ''          1         2     -53.47'')"
  by (simp add: dbf_record_def point_feature_def and_then_def or_coordinate_def
      double_val_lng double_val_lat toFixed6_lng toFixed6_lat nat_digits_one
      padStart_def int_toString_def digit_char_def write_ascii_def writeUInt8_def
      write_checked_def put_bytes_def alloc_def replicate_numeral nat_digits_numeral)

text \<open>
  C4. Claim: for a non-empty list of polygon features the geometry encoder succeeds, with
  a record buffer large enough for the bounding box, the part and point counts and the
  points. The record buffer is 28 bytes for every feature: encoding the unit square raises
  \<^verbatim>\<open>ERR_OUT_OF_RANGE\<close> when the bounding box's \<open>maxY\<close> is written at offset 28.
\<close>

theorem C4_polygon_record_out_of_range:
  "createShapefileBuffer [square_feature] ''grid'' 0 0 0x3FF0000000000000 0x3FF0000000000000 =
     Inl (ERR_OUT_OF_RANGE ''offset'' 28)"
  by code_simp

text \<open>
  C8. Encoding the single point feature \<open>{id: 1, gridSize: 2, lat: -27.6321, lng: -53.4701}\<close>
  and reading the two little-endian doubles that follow the first record's header and
  shape code gives back the feature's coordinates exactly, hence within \<open>10^-9\<close> of
  \<open>(-53.4701, -27.6321)\<close>.
\<close>

theorem C8_point_round_trip:
  "and_then
     (createShapefileBuffer [point_feature] ''points''
        0xC04ABC2C3C9EECC0 0xC03BA1D14E3BCD36 0xC04ABC2C3C9EECC0 0xC03BA1D14E3BCD36)
     read_first_point =
     Inr (Fin (- (117581993376691 / 2199023255552)), Fin (- (3888872351983259 / 140737488355328))) \<and>
   \<bar>- (117581993376691 / 2199023255552) - (- 53.4701 :: real)\<bar> \<le> 1 / 10 ^ 9 \<and>
   \<bar>- (3888872351983259 / 140737488355328) - (- 27.6321 :: real)\<bar> \<le> 1 / 10 ^ 9"
proof -
  have enc: "createShapefileBuffer [point_feature] ''points''
        0xC04ABC2C3C9EECC0 0xC03BA1D14E3BCD36 0xC04ABC2C3C9EECC0 0xC03BA1D14E3BCD36 =
      Inr [0, 0, 39, 10, 0, 0, 0, 0, 0, 0, 0, 0, 0, 0, 0, 0, 0, 0, 0, 0, 0, 0, 0, 0,
           0, 0, 0, 78, 232, 3, 0, 0, 1, 0, 0, 0,
           192, 236, 158, 60, 44, 188, 74, 192, 54, 205, 59, 78, 209, 161, 59, 192,
           192, 236, 158, 60, 44, 188, 74, 192, 54, 205, 59, 78, 209, 161, 59, 192,
           0, 0, 0, 0, 0, 0, 0, 0, 0, 0, 0, 0, 0, 0, 0, 0,
           0, 0, 0, 0, 0, 0, 0, 0, 0, 0, 0, 0, 0, 0, 0, 0,
           0, 0, 0, 1, 0, 0, 0, 28,
           1, 0, 0, 0, 192, 236, 158, 60, 44, 188, 74, 192, 54, 205, 59, 78, 209, 161, 59, 192,
           0, 0, 0, 0, 0, 0, 0, 0]"
    by code_simp
  have x: "le_word64 [192, 236, 158, 60, 44, 188, 74, 192] = 0xC04ABC2C3C9EECC0"
    by (simp add: le_word64_def)
  have y: "le_word64 [54, 205, 59, 78, 209, 161, 59, 192] = 0xC03BA1D14E3BCD36"
    by (simp add: le_word64_def)
  have "and_then
     (createShapefileBuffer [point_feature] ''points''
        0xC04ABC2C3C9EECC0 0xC03BA1D14E3BCD36 0xC04ABC2C3C9EECC0 0xC03BA1D14E3BCD36)
     read_first_point =
     Inr (Fin (- (117581993376691 / 2199023255552)), Fin (- (3888872351983259 / 140737488355328)))"
    unfolding enc
    by (simp add: and_then_def read_first_point_def readDoubleLE_def x y double_val_lng double_val_lat)
  then show ?thesis by simp
qed

text \<open>
  C9. Claim: the encoders are pure functions of the feature list, with no dependence on
  the current date. The attribute encoder reads the date: the header it builds differs
  between 2 and 3 November 2026, and its outcome differs between the years 2026 (the
  field terminator is out of range) and 2156 (the year byte is out of range).
\<close>

theorem C9_counterexample:
  "dbf_header \<lparr>getFullYear = 2026, getMonth = 10, getDate = 2\<rparr> 1 \<noteq>
   dbf_header \<lparr>getFullYear = 2026, getMonth = 10, getDate = 3\<rparr> 1 \<and>
   createDBFBuffer \<lparr>getFullYear = 2026, getMonth = 10, getDate = 2\<rparr> [point_feature] \<noteq>
   createDBFBuffer \<lparr>getFullYear = 2156, getMonth = 10, getDate = 2\<rparr> [point_feature]"
proof -
  have a: "dbf_header \<lparr>getFullYear = 2026, getMonth = 10, getDate = 2\<rparr> 1 =
      Inr [3, 126, 11, 2, 1, 0, 0, 0, 161, 0, 32, 0, 0, 0, 0, 0, 0, 0, 0, 0, 0,
           0, 0, 0, 0, 0, 0, 0, 0, 0, 0, 0]"
    by code_simp
  have b: "dbf_header \<lparr>getFullYear = 2026, getMonth = 10, getDate = 3\<rparr> 1 =
      Inr [3, 126, 11, 3, 1, 0, 0, 0, 161, 0, 32, 0, 0, 0, 0, 0, 0, 0, 0, 0, 0,
           0, 0, 0, 0, 0, 0, 0, 0, 0, 0, 0]"
    by code_simp
  have c: "createDBFBuffer \<lparr>getFullYear = 2026, getMonth = 10, getDate = 2\<rparr> [point_feature] =
      Inl (ERR_OUT_OF_RANGE ''offset'' 160)"
    by (rule createDBFBuffer_terminator_out_of_range) simp_all
  have "dbf_header \<lparr>getFullYear = 2156, getMonth = 10, getDate = 2\<rparr> 1 =
      Inl (ERR_OUT_OF_RANGE ''value'' 256)"
    by code_simp
  then have d: "createDBFBuffer \<lparr>getFullYear = 2156, getMonth = 10, getDate = 2\<rparr> [point_feature] =
      Inl (ERR_OUT_OF_RANGE ''value'' 256)"
    by (simp add: createDBFBuffer_def and_then_def)
  show ?thesis unfolding a b c d by simp
qed

text \<open>
  C9, as the code has it: the geometry and index encoders take the features, the type and
  the bounding box and nothing else. The attribute encoder also takes the current date
  and stores it in bytes 1 to 3 of its 32-byte header (year minus 1900, month, day); every
  other byte of that header is fixed by the number of features.
\<close>

theorem C9_header_carries_date:
  assumes "1900 \<le> getFullYear today" "getFullYear today \<le> 2155"
    and "0 \<le> getMonth today" "getMonth today \<le> 11"
    and "1 \<le> getDate today" "getDate today \<le> 31"
    and "n < 2 ^ 32"
  shows "dbf_header today n =
           Inr ([3, word_of_int (getFullYear today - 1900), word_of_int (getMonth today + 1),
                 word_of_int (getDate today)]
                @ le_bytes32 (word_of_int (int n)) @ [161, 0, 32, 0] @ replicate 20 0)"
  using assms by (rule dbf_header_bytes)

theorem C9_header_carries_date_witness:
  "dbf_header \<lparr>getFullYear = 2026, getMonth = 10, getDate = 2\<rparr> 1 =
     Inr ([3, 126, 11, 2] @ [1, 0, 0, 0] @ [161, 0, 32, 0] @ replicate 20 0)"
  using C9_header_carries_date [of "\<lparr>getFullYear = 2026, getMonth = 10, getDate = 2\<rparr>" 1]
  by (simp add: le_bytes32_def)

section \<open>Polygon area\<close>

lemma area_loop_step:
  "Suc i < length coordinates \<Longrightarrow>
     area_loop coordinates i area =
       area_loop coordinates (Suc i)
         (js_sub
            (js_add area (js_mul (fst (coordinates ! i)) (snd (coordinates ! Suc i))))
            (js_mul (fst (coordinates ! Suc i)) (snd (coordinates ! i))))"
  by (subst area_loop.simps) simp

lemma area_loop_done: "\<not> Suc i < length coordinates \<Longrightarrow> area_loop coordinates i area = area"
  by (subst area_loop.simps) simp

lemma path_sum_drop:
  assumes "Suc i < length ps"
  shows "path_sum (drop i ps) = cross (ps ! i) (ps ! Suc i) + path_sum (drop (Suc i) ps)"
proof -
  have a: "drop i ps = ps ! i # drop (Suc i) ps"
    using assms by (simp add: Cons_nth_drop_Suc)
  have b: "drop (Suc i) ps = ps ! Suc i # drop (Suc (Suc i)) ps"
    using assms by (simp add: Cons_nth_drop_Suc)
  have "path_sum (ps ! i # ps ! Suc i # drop (Suc (Suc i)) ps) =
      cross (ps ! i) (ps ! Suc i) + path_sum (ps ! Suc i # drop (Suc (Suc i)) ps)"
    by simp
  then show ?thesis
    unfolding a b .
qed

lemma path_sum_short: "length ps \<le> 1 \<Longrightarrow> path_sum ps = 0"
  by (cases ps rule: path_sum.cases) simp_all

text \<open>
  Coordinates of magnitude at most \<open>2^20\<close> on a path of at most 4096 vertices: no product
  and no partial sum overflows, and the loop adds up the shoelace sum of the rest of the
  path.
\<close>

lemma product_bounded:
  fixes x y :: real
  assumes "\<bar>x\<bar> \<le> 2 ^ 20" and "\<bar>y\<bar> \<le> 2 ^ 20"
  shows "\<bar>x * y\<bar> \<le> 2 ^ 40"
proof -
  have "\<bar>x\<bar> * \<bar>y\<bar> \<le> 2 ^ 20 * 2 ^ 20"
    by (rule mult_mono) (use assms in simp_all)
  then show ?thesis by (simp add: abs_mult)
qed

lemma shoelace_step:
  assumes "\<bar>a\<bar> \<le> 2 ^ 41 * real i" and "i < 4096"
    and "\<bar>x1\<bar> \<le> 2 ^ 20" "\<bar>y1\<bar> \<le> 2 ^ 20" "\<bar>x2\<bar> \<le> 2 ^ 20" "\<bar>y2\<bar> \<le> 2 ^ 20"
  shows "js_sub (js_add (Fin a) (js_mul (Fin x1) (Fin y2))) (js_mul (Fin x2) (Fin y1)) =
           Fin (a + (x1 * y2 - x2 * y1))"
    and "\<bar>a + (x1 * y2 - x2 * y1)\<bar> \<le> 2 ^ 41 * real (Suc i)"
proof -
  define B :: real where "B = 2 ^ 40"
  have p: "\<bar>x1 * y2\<bar> \<le> B" "\<bar>x2 * y1\<bar> \<le> B"
    unfolding B_def using assms(3-6) by (simp_all only: product_bounded)
  have "real i \<le> 4096" using assms(2) by simp
  then have "B * real i \<le> B * 4096"
    by (rule mult_left_mono) (simp add: B_def)
  moreover have a: "\<bar>a\<bar> \<le> 2 * (B * real i)"
    using assms(1) by (simp add: B_def)
  moreover have big: "8194 * B \<le> 2 ^ 64"
    by (simp add: B_def)
  ultimately have s: "\<bar>x1 * y2\<bar> \<le> 2 ^ 64" "\<bar>x2 * y1\<bar> \<le> 2 ^ 64" "\<bar>a + x1 * y2\<bar> \<le> 2 ^ 64"
    "\<bar>a + x1 * y2 + - (x2 * y1)\<bar> \<le> 2 ^ 64"
    using p by linarith+
  have f: "js_fin (x1 * y2) = Fin (x1 * y2)" "js_fin (x2 * y1) = Fin (x2 * y1)"
    "js_fin (a + x1 * y2) = Fin (a + x1 * y2)"
    "js_fin (a + x1 * y2 + - (x2 * y1)) = Fin (a + x1 * y2 + - (x2 * y1))"
    using s by (simp_all only: js_fin_small)
  have "js_sub (js_add (Fin a) (js_mul (Fin x1) (Fin y2))) (js_mul (Fin x2) (Fin y1)) =
      Fin (a + x1 * y2 + - (x2 * y1))"
    by (simp only: js_sub_def js_mul.simps js_add.simps js_neg.simps f)
  then show "js_sub (js_add (Fin a) (js_mul (Fin x1) (Fin y2))) (js_mul (Fin x2) (Fin y1)) =
      Fin (a + (x1 * y2 - x2 * y1))"
    by (simp only: diff_conv_add_uminus add.assoc)
  have "\<bar>a + (x1 * y2 - x2 * y1)\<bar> \<le> 2 * (B * real i) + 2 * B"
    using a p by linarith
  then show "\<bar>a + (x1 * y2 - x2 * y1)\<bar> \<le> 2 ^ 41 * real (Suc i)"
    by (simp add: B_def algebra_simps)
qed

lemma area_loop_fin:
  assumes "\<forall>p\<in>set ps. \<bar>fst p\<bar> \<le> 2 ^ 20 \<and> \<bar>snd p\<bar> \<le> 2 ^ 20" and "length ps \<le> 4096"
  shows "\<bar>a\<bar> \<le> 2 ^ 41 * real i \<Longrightarrow>
           area_loop (fin_ring ps) i (Fin a) = Fin (a + path_sum (drop i ps))"
proof (induction "length ps - i" arbitrary: i a)
  case 0
  then have "\<not> Suc i < length (fin_ring ps)" "length (drop i ps) \<le> 1"
    by (simp_all add: fin_ring_def)
  then show ?case
    by (simp add: area_loop_done path_sum_short)
next
  case (Suc k)
  show ?case
  proof (cases "Suc i < length ps")
    case True
    then have lt: "Suc i < length (fin_ring ps)" by (simp add: fin_ring_def)
    have k: "k = length ps - Suc i" using Suc.hyps(2) by simp
    have i: "i < 4096" using True assms(2) by simp
    have nth: "fin_ring ps ! i = (Fin (fst (ps ! i)), Fin (snd (ps ! i)))"
      "fin_ring ps ! Suc i = (Fin (fst (ps ! Suc i)), Fin (snd (ps ! Suc i)))"
      using True by (simp_all add: fin_ring_def)
    have "ps ! i \<in> set ps" "ps ! Suc i \<in> set ps" using True by simp_all
    then have b: "\<bar>fst (ps ! i)\<bar> \<le> 2 ^ 20" "\<bar>snd (ps ! i)\<bar> \<le> 2 ^ 20"
      "\<bar>fst (ps ! Suc i)\<bar> \<le> 2 ^ 20" "\<bar>snd (ps ! Suc i)\<bar> \<le> 2 ^ 20"
      using assms(1) by blast+
    note step = shoelace_step [OF Suc.prems i b(1,2,3,4)]
    have "area_loop (fin_ring ps) i (Fin a) =
        area_loop (fin_ring ps) (Suc i) (Fin (a + cross (ps ! i) (ps ! Suc i)))"
      by (simp only: area_loop_step [OF lt] nth fst_conv snd_conv step(1) cross_def)
    also have "\<dots> = Fin (a + cross (ps ! i) (ps ! Suc i) + path_sum (drop (Suc i) ps))"
      using step(2) by (intro Suc.hyps(1) [OF k]) (simp only: cross_def)
    finally show ?thesis
      by (simp add: path_sum_drop [OF True])
  next
    case False
    then have "\<not> Suc i < length (fin_ring ps)" "length (drop i ps) \<le> 1"
      by (simp_all add: fin_ring_def)
    then show ?thesis
      by (simp add: area_loop_done path_sum_short)
  qed
qed

lemma calculateArea_fin:
  assumes "ps \<noteq> []" and "\<forall>p\<in>set ps. \<bar>fst p\<bar> \<le> 2 ^ 20 \<and> \<bar>snd p\<bar> \<le> 2 ^ 20"
    and "length ps \<le> 4096"
  shows "calculateArea (fin_ring ps) =
           Inr (to_hectares (js_div (Fin \<bar>path_sum ps\<bar>) (Fin 2)) (Fin (snd (hd ps))))"
proof -
  obtain p ps' where ps: "ps = p # ps'" using assms(1) by (cases ps) auto
  have loop: "area_loop (fin_ring ps) 0 (Fin 0) = Fin (path_sum ps)"
    using area_loop_fin [OF assms(2,3), of 0 0] by simp
  show ?thesis
    unfolding calculateArea_def loop
    by (simp add: ps fin_ring_def del: js_div.simps)
qed

lemma cross_swap: "cross q p = - cross p q"
  by (simp add: cross_def)

lemma path_sum_snoc: "ps \<noteq> [] \<Longrightarrow> path_sum (ps @ [a]) = path_sum ps + cross (last ps) a"
  by (induction ps rule: path_sum.induct) simp_all

lemma path_sum_rev: "path_sum (rev ps) = - path_sum ps"
proof (induction ps rule: path_sum.induct)
  case (1 p q ps)
  have "path_sum ((rev ps @ [q]) @ [p]) = path_sum (rev ps @ [q]) + cross q p"
    using path_sum_snoc [of "rev ps @ [q]" p] by simp
  with 1 show ?case
    by (simp add: cross_swap [of q p])
qed simp_all

lemma path_sum_append:
  "xs \<noteq> [] \<Longrightarrow> ys \<noteq> [] \<Longrightarrow>
     path_sum (xs @ ys) = path_sum xs + cross (last xs) (hd ys) + path_sum ys"
proof (induction xs)
  case Nil
  then show ?case by simp
next
  case (Cons x xs)
  note IH = Cons.IH and ys = Cons.prems(2)
  show ?case
  proof (cases xs)
    case Nil
    with ys show ?thesis by (cases ys) simp_all
  next
    case (Cons x' xs')
    with IH ys show ?thesis by simp
  qed
qed

text \<open>Moving the starting vertex of a closed ring keeps the shoelace sum.\<close>

lemma path_sum_closed_rotate1:
  assumes "c \<noteq> []"
  shows "path_sum (closed_ring (rotate1 c)) = path_sum (closed_ring c)"
proof (cases c)
  case Nil
  with assms show ?thesis by simp
next
  case (Cons x xs)
  show ?thesis
  proof (cases xs)
    case Nil
    with Cons show ?thesis by (simp add: closed_ring_def)
  next
    case (Cons y ys)
    have l: "path_sum ((y # ys) @ [x] @ [y]) = path_sum (y # ys) + cross (last (y # ys)) x + cross x y"
      using path_sum_append [of "y # ys" "[x, y]"] by simp
    have r: "path_sum (x # (y # ys) @ [x]) = cross x y + (path_sum (y # ys) + cross (last (y # ys)) x)"
      using path_sum_snoc [of "y # ys" x] by simp
    from l r show ?thesis
      using \<open>c = x # xs\<close> Cons by (simp add: closed_ring_def)
  qed
qed

lemma path_sum_closed_rotate:
  assumes "c \<noteq> []"
  shows "path_sum (closed_ring (rotate k c)) = path_sum (closed_ring c)"
proof (induction k)
  case 0
  then show ?case by simp
next
  case (Suc k)
  have "rotate k c \<noteq> []" using assms by simp
  from path_sum_closed_rotate1 [OF this] Suc show ?case by simp
qed


text \<open>The client's loop closes the ring itself: it adds up the shoelace sum of the closed ring.\<close>

lemma polygon_area_loop_step:
  "i < length coordinates \<Longrightarrow>
     polygon_area_loop coordinates i area =
       polygon_area_loop coordinates (Suc i)
         (js_sub
            (js_add area
               (js_mul (coord_lng (coordinates ! i))
                  (coord_lat (coordinates ! (Suc i mod length coordinates)))))
            (js_mul (coord_lng (coordinates ! (Suc i mod length coordinates)))
               (coord_lat (coordinates ! i))))"
  by (subst polygon_area_loop.simps) (simp add: Let_def)

lemma polygon_area_loop_done:
  "\<not> i < length coordinates \<Longrightarrow> polygon_area_loop coordinates i area = area"
  by (subst polygon_area_loop.simps) simp

lemma closed_ring_nth:
  assumes "i < length ps"
  shows "closed_ring ps ! i = ps ! i" and "closed_ring ps ! Suc i = ps ! (Suc i mod length ps)"
proof -
  show "closed_ring ps ! i = ps ! i"
    using assms by (simp add: closed_ring_def nth_append)
  show "closed_ring ps ! Suc i = ps ! (Suc i mod length ps)"
  proof (cases "Suc i < length ps")
    case True
    then show ?thesis by (simp add: closed_ring_def nth_append)
  next
    case False
    with assms have e: "Suc i = length ps" by simp
    then have "ps \<noteq> []" by auto
    then show ?thesis
      using e by (simp add: closed_ring_def nth_append hd_conv_nth)
  qed
qed

lemma polygon_area_loop_fin:
  assumes "\<forall>p\<in>set ps. \<bar>fst p\<bar> \<le> 2 ^ 20 \<and> \<bar>snd p\<bar> \<le> 2 ^ 20" and "length ps \<le> 4096"
  shows "i \<le> length ps \<Longrightarrow> \<bar>a\<bar> \<le> 2 ^ 41 * real i \<Longrightarrow>
     polygon_area_loop (latlng_ring ps) i (Fin a) = Fin (a + path_sum (drop i (closed_ring ps)))"
proof (induction "length ps - i" arbitrary: i a)
  case 0
  then have e: "i = length ps" by simp
  then have "\<not> i < length (latlng_ring ps)" "length (drop i (closed_ring ps)) \<le> 1"
    by (simp_all add: latlng_ring_def closed_ring_def)
  then show ?case
    by (simp add: polygon_area_loop_done path_sum_short)
next
  case (Suc k)
  then have lt: "i < length ps" by simp
  then have lt': "i < length (latlng_ring ps)" by (simp add: latlng_ring_def)
  have k: "k = length ps - Suc i" using Suc.hyps(2) by simp
  have le: "Suc i \<le> length ps" using lt by simp
  have i: "i < 4096" using lt assms(2) by simp
  have "ps \<noteq> []" using lt by auto
  then have m: "Suc i mod length ps < length ps" by simp
  have nth: "latlng_ring ps ! i = LatLngArray (Fin (snd (ps ! i))) (Fin (fst (ps ! i)))"
    "latlng_ring ps ! (Suc i mod length ps) =
       LatLngArray (Fin (snd (ps ! (Suc i mod length ps)))) (Fin (fst (ps ! (Suc i mod length ps))))"
    using lt m by (simp_all add: latlng_ring_def)
  have len: "length (latlng_ring ps) = length ps" by (simp add: latlng_ring_def)
  have d: "path_sum (drop i (closed_ring ps)) =
      cross (ps ! i) (ps ! (Suc i mod length ps)) + path_sum (drop (Suc i) (closed_ring ps))"
    using path_sum_drop [of i "closed_ring ps"] lt closed_ring_nth [OF lt]
    by (simp add: closed_ring_def)
  have "ps ! i \<in> set ps" "ps ! (Suc i mod length ps) \<in> set ps" using lt m by simp_all
  then have b: "\<bar>fst (ps ! i)\<bar> \<le> 2 ^ 20" "\<bar>snd (ps ! i)\<bar> \<le> 2 ^ 20"
    "\<bar>fst (ps ! (Suc i mod length ps))\<bar> \<le> 2 ^ 20" "\<bar>snd (ps ! (Suc i mod length ps))\<bar> \<le> 2 ^ 20"
    using assms(1) by blast+
  note step = shoelace_step [OF Suc.prems(2) i b(1,2,3,4)]
  have "polygon_area_loop (latlng_ring ps) i (Fin a) =
      polygon_area_loop (latlng_ring ps) (Suc i)
        (Fin (a + cross (ps ! i) (ps ! (Suc i mod length ps))))"
    by (simp only: polygon_area_loop_step [OF lt'] len nth coord_lat.simps coord_lng.simps
        fst_conv snd_conv step(1) cross_def)
  also have "\<dots> = Fin (a + cross (ps ! i) (ps ! (Suc i mod length ps)) +
      path_sum (drop (Suc i) (closed_ring ps)))"
    using step(2) by (intro Suc.hyps(1) [OF k le]) (simp only: cross_def)
  finally show ?case
    by (simp add: d)
qed

lemma calculatePolygonArea_fin:
  assumes "ps \<noteq> []" and "\<forall>p\<in>set ps. \<bar>fst p\<bar> \<le> 2 ^ 20 \<and> \<bar>snd p\<bar> \<le> 2 ^ 20"
    and "length ps \<le> 4096"
  shows "calculatePolygonArea (latlng_ring ps) =
           Inr (to_hectares (js_div (Fin \<bar>path_sum (closed_ring ps)\<bar>) (Fin 2)) (Fin (snd (hd ps))))"
proof -
  obtain p ps' where ps: "ps = p # ps'" using assms(1) by (cases ps) auto
  have loop: "polygon_area_loop (latlng_ring ps) 0 (Fin 0) = Fin (path_sum (closed_ring ps))"
    using polygon_area_loop_fin [OF assms(2,3), of 0 0] by simp
  show ?thesis
    unfolding calculatePolygonArea_def loop
    by (simp add: ps latlng_ring_def del: js_div.simps)
qed

lemma path_sum_Cons: "qs \<noteq> [] \<Longrightarrow> path_sum (p # qs) = cross p (hd qs) + path_sum qs"
  by (cases qs) simp_all

lemma path_sum_closed_rev:
  assumes "ps \<noteq> []"
  shows "path_sum (closed_ring (rev ps)) = - path_sum (closed_ring ps)"
proof -
  have "path_sum (closed_ring (rev ps)) = path_sum (rev ps) + cross (hd ps) (last ps)"
    using assms path_sum_snoc [of "rev ps" "last ps"]
    by (simp add: closed_ring_def hd_rev last_rev)
  moreover have "path_sum (rev (closed_ring ps)) = cross (hd ps) (last ps) + path_sum (rev ps)"
    using assms path_sum_Cons [of "rev ps" "hd ps"]
    by (simp add: closed_ring_def hd_rev)
  ultimately show ?thesis
    using path_sum_rev [of "closed_ring ps"] by simp
qed

text \<open>The hectare values of the triangle \<open>(0,0), (1,0), (0,60)\<close>, of planar area 30.\<close>

lemma to_hectares_30:
  "to_hectares (js_div (Fin 60) (Fin 2)) (Fin 0) = Fin (30 * 111.32 * 111.32 / 10000)"
  "to_hectares (js_div (Fin 60) (Fin 2)) (Fin 60) = Fin (30 * 111.32 * 111.32 / 2 / 10000)"
  by (simp_all add: to_hectares_def cos_degrees js_fin_small cos_60)

text \<open>
  C7. Claim: for every vertex ring the hectare value is the same for the reversed ring and
  for every rotation of the starting vertex. Both area functions scale the planar area by
  the cosine of the first vertex's latitude, so the value changes with the starting
  vertex: the triangle \<open>(0,0), (1,0), (0,60)\<close> started at \<open>(0,60)\<close>, by rotation or by
  reversal, gets half the value it gets started at \<open>(0,0)\<close>.
\<close>

theorem C7_counterexample:
  "calculateArea (fin_ring [(0, 60), (0, 0), (1, 0), (0, 60)]) \<noteq>
     calculateArea (fin_ring [(0, 0), (1, 0), (0, 60), (0, 0)]) \<and>
   calculateArea (fin_ring (rev [(0, 0), (1, 0), (0, 60)])) \<noteq>
     calculateArea (fin_ring [(0, 0), (1, 0), (0, 60)]) \<and>
   calculatePolygonArea (latlng_ring (rotate 2 [(0, 0), (1, 0), (0, 60)])) \<noteq>
     calculatePolygonArea (latlng_ring [(0, 0), (1, 0), (0, 60)]) \<and>
   calculatePolygonArea (latlng_ring (rev [(0, 0), (1, 0), (0, 60)])) \<noteq>
     calculatePolygonArea (latlng_ring [(0, 0), (1, 0), (0, 60)])"
  by (simp add: calculateArea_fin calculatePolygonArea_fin closed_ring_def cross_def
      numeral_2_eq_2 to_hectares_30 del: js_div.simps)

text \<open>
  C7, as the code has it. The sums of the two loops are rounded at every step, and the
  rounding depends on the order of the vertices, so the invariance holds where the sums
  are exact: when every coordinate is an integer multiple of \<open>2^-m\<close> (\<open>m \<le> 64\<close>) of at most
  \<open>2^20\<close> units and the ring has at most 1024 vertices, every product and every partial sum
  is an integer multiple of \<open>2^-2m\<close> of less than \<open>2^53\<close> units. For every such closed ring
  (the first vertex repeated at the end), \<^verbatim>\<open>calculateArea\<close> and \<^verbatim>\<open>calculatePolygonArea\<close> give
  the reversed ring the value of the ring; and a ring started at another vertex of the same
  latitude keeps its value (for \<^verbatim>\<open>calculateArea\<close> the closed ring, for
  \<^verbatim>\<open>calculatePolygonArea\<close>, which closes the ring itself, the open one).
\<close>

theorem C7_closed_ring_reversal_rotation:
  assumes "c \<noteq> []" and "snd (hd (rotate k c)) = snd (hd c)"
    and "length c \<le> 1024" and "m \<le> 64"
    and "\<forall>p\<in>set c. fst p * 2 ^ m \<in> \<int> \<and> snd p * 2 ^ m \<in> \<int> \<and>
                    \<bar>fst p\<bar> * 2 ^ m \<le> 2 ^ 20 \<and> \<bar>snd p\<bar> * 2 ^ m \<le> 2 ^ 20"
  shows "calculateArea (fin_ring (rev (closed_ring c))) = calculateArea (fin_ring (closed_ring c)) \<and>
         calculateArea (fin_ring (closed_ring (rotate k c))) =
           calculateArea (fin_ring (closed_ring c)) \<and>
         calculatePolygonArea (latlng_ring (rev (closed_ring c))) =
           calculatePolygonArea (latlng_ring (closed_ring c)) \<and>
         calculatePolygonArea (latlng_ring (rotate k c)) = calculatePolygonArea (latlng_ring c)"
proof -
  have small: "\<bar>v\<bar> \<le> 2 ^ 20" if "\<bar>v\<bar> * 2 ^ m \<le> 2 ^ 20" for v :: real
  proof -
    have "\<bar>v\<bar> * 1 \<le> \<bar>v\<bar> * 2 ^ m"
      by (rule mult_left_mono) simp_all
    with that show ?thesis by simp
  qed
  have bc: "\<forall>p\<in>set c. \<bar>fst p\<bar> \<le> 2 ^ 20 \<and> \<bar>snd p\<bar> \<le> 2 ^ 20"
    using assms(5) small by blast
  have hdc: "hd c \<in> set c" using assms(1) by simp
  have sets: "set (closed_ring c) = set c" "set (rev (closed_ring c)) = set c"
    "set (closed_ring (rotate k c)) = set c" "set (rotate k c) = set c"
    using hdc assms(1) by (auto simp add: closed_ring_def hd_rotate_conv_nth)
  have b: "\<forall>p\<in>set (closed_ring c). \<bar>fst p\<bar> \<le> 2 ^ 20 \<and> \<bar>snd p\<bar> \<le> 2 ^ 20"
    "\<forall>p\<in>set (rev (closed_ring c)). \<bar>fst p\<bar> \<le> 2 ^ 20 \<and> \<bar>snd p\<bar> \<le> 2 ^ 20"
    "\<forall>p\<in>set (closed_ring (rotate k c)). \<bar>fst p\<bar> \<le> 2 ^ 20 \<and> \<bar>snd p\<bar> \<le> 2 ^ 20"
    "\<forall>p\<in>set (rotate k c). \<bar>fst p\<bar> \<le> 2 ^ 20 \<and> \<bar>snd p\<bar> \<le> 2 ^ 20"
    using bc by (simp_all only: sets)
  have l: "length (closed_ring c) \<le> 4096" "length (rev (closed_ring c)) \<le> 4096"
    "length (closed_ring (rotate k c)) \<le> 4096" "length (rotate k c) \<le> 4096" "length c \<le> 4096"
    using assms(3) by (simp_all add: closed_ring_def)
  have ne: "closed_ring c \<noteq> []" "rev (closed_ring c) \<noteq> []" "closed_ring (rotate k c) \<noteq> []"
    "rotate k c \<noteq> []"
    using assms(1) by (simp_all add: closed_ring_def)
  have hd_rev: "hd (rev (closed_ring c)) = hd (closed_ring c)"
    using assms(1) by (simp add: closed_ring_def)
  have hd_rot: "snd (hd (closed_ring (rotate k c))) = snd (hd (closed_ring c))"
    using assms(1,2) by (simp add: closed_ring_def)
  have s1: "calculateArea (fin_ring (rev (closed_ring c))) = calculateArea (fin_ring (closed_ring c))"
    by (simp only: calculateArea_fin [OF ne(2) b(2) l(2)] calculateArea_fin [OF ne(1) b(1) l(1)]
        hd_rev path_sum_rev abs_minus_cancel)
  have s2: "calculateArea (fin_ring (closed_ring (rotate k c))) =
      calculateArea (fin_ring (closed_ring c))"
    by (simp only: calculateArea_fin [OF ne(3) b(3) l(3)] calculateArea_fin [OF ne(1) b(1) l(1)]
        hd_rot path_sum_closed_rotate [OF assms(1)])
  have c1: "calculatePolygonArea (latlng_ring (rev (closed_ring c))) =
      calculatePolygonArea (latlng_ring (closed_ring c))"
    by (simp only: calculatePolygonArea_fin [OF ne(2) b(2) l(2)]
        calculatePolygonArea_fin [OF ne(1) b(1) l(1)] hd_rev path_sum_closed_rev [OF ne(1)]
        abs_minus_cancel)
  have c2: "calculatePolygonArea (latlng_ring (rotate k c)) = calculatePolygonArea (latlng_ring c)"
    by (simp only: calculatePolygonArea_fin [OF ne(4) b(4) l(4)]
        calculatePolygonArea_fin [OF assms(1) bc l(5)] assms(2)
        path_sum_closed_rotate [OF assms(1)])
  from s1 s2 c1 c2 show ?thesis by simp
qed

theorem C7_closed_ring_reversal_rotation_witness:
  "[(0, 0), (1 / 2, 0), (1 / 2, 3), (0, 3)] \<noteq> ([] :: (real \<times> real) list) \<and>
   snd (hd (rotate 1 [(0, 0), (1 / 2, 0), (1 / 2, 3), (0 :: real, 3 :: real)])) =
     snd (hd [(0, 0), (1 / 2, 0), (1 / 2, 3), (0 :: real, 3 :: real)]) \<and>
   length [(0, 0), (1 / 2, 0), (1 / 2, 3), (0 :: real, 3 :: real)] \<le> 1024 \<and> (1 :: nat) \<le> 64 \<and>
   (0 :: real) * 2 ^ 1 \<in> \<int> \<and> (1 / 2 :: real) * 2 ^ 1 \<in> \<int> \<and> (3 :: real) * 2 ^ 1 \<in> \<int> \<and>
   \<bar>0 :: real\<bar> * 2 ^ 1 \<le> 2 ^ 20 \<and> \<bar>1 / 2 :: real\<bar> * 2 ^ 1 \<le> 2 ^ 20 \<and> \<bar>3 :: real\<bar> * 2 ^ 1 \<le> 2 ^ 20 \<and>
   calculateArea (fin_ring [(0, 0), (0, 3), (1 / 2, 3), (1 / 2, 0), (0, 0)]) =
     calculateArea (fin_ring [(0, 0), (1 / 2, 0), (1 / 2, 3), (0, 3), (0, 0)]) \<and>
   calculateArea (fin_ring [(1 / 2, 0), (1 / 2, 3), (0, 3), (0, 0), (1 / 2, 0)]) =
     calculateArea (fin_ring [(0, 0), (1 / 2, 0), (1 / 2, 3), (0, 3), (0, 0)]) \<and>
   calculatePolygonArea (latlng_ring [(0, 0), (0, 3), (1 / 2, 3), (1 / 2, 0), (0, 0)]) =
     calculatePolygonArea (latlng_ring [(0, 0), (1 / 2, 0), (1 / 2, 3), (0, 3), (0, 0)]) \<and>
   calculatePolygonArea (latlng_ring [(1 / 2, 0), (1 / 2, 3), (0, 3), (0, 0)]) =
     calculatePolygonArea (latlng_ring [(0, 0), (1 / 2, 0), (1 / 2, 3), (0, 3)])"
  using C7_closed_ring_reversal_rotation [of "[(0, 0), (1 / 2, 0), (1 / 2, 3), (0, 3)]" 1 1]
  by (simp add: closed_ring_def)

end
